theory Spec2Isabelle
  imports Complex_Main "HOL-Library.AList"
begin

section \<open>Python strings\<close>

text \<open>
  Text is a \<^typ>\<open>string\<close>: a list of code points below 256. The character classes are
  those of Python 3's \<^verbatim>\<open>str\<close> on that range: \<^verbatim>\<open>str.isspace\<close> holds for
  U+0009..U+000D, U+001C..U+001F, U+0020, U+0085 and U+00A0, and \<^verbatim>\<open>str.splitlines\<close>
  breaks at LF, VT, FF, CR (CR LF counting once), FS, GS, RS and NEL.
\<close>

definition isspace :: "char \<Rightarrow> bool" where
  "isspace c = (c \<in> {CHR 0x09, CHR 0x0A, CHR 0x0B, CHR 0x0C, CHR 0x0D, CHR 0x1C, CHR 0x1D,
                       CHR 0x1E, CHR 0x1F, CHR 0x20, CHR 0x85, CHR 0xA0})"

definition is_linebreak :: "char \<Rightarrow> bool" where
  "is_linebreak c = (c \<in> {CHR 0x0A, CHR 0x0B, CHR 0x0C, CHR 0x0D, CHR 0x1C, CHR 0x1D,
                            CHR 0x1E, CHR 0x85})"

text \<open>
  \<^verbatim>\<open>s.splitlines()\<close>: every line break ends a line (an empty one too); what follows the
  last break is a line only when it is not empty. \<open>cur\<close> is the line read so far.
\<close>

fun splitlines_from :: "string \<Rightarrow> string \<Rightarrow> string list" where
  "splitlines_from cur [] = (if cur = [] then [] else [cur])"
| "splitlines_from cur (c # cs) =
     (if c = CHR 0x0D \<and> cs \<noteq> [] \<and> hd cs = CHR 0x0A then cur # splitlines_from [] (tl cs)
      else if is_linebreak c then cur # splitlines_from [] cs
      else splitlines_from (cur @ [c]) cs)"

definition splitlines :: "string \<Rightarrow> string list" where
  "splitlines s = splitlines_from [] s"

text \<open>\<^verbatim>\<open>s.strip()\<close>: whitespace removed at both ends.\<close>

definition strip :: "string \<Rightarrow> string" where
  "strip s = rev (dropWhile isspace (rev (dropWhile isspace s)))"

text \<open>\<^verbatim>\<open>s.startswith(p)\<close> and \<^verbatim>\<open>sub in s\<close>.\<close>

definition startswith :: "string \<Rightarrow> string \<Rightarrow> bool" where
  "startswith s p = (take (length p) s = p)"

fun contains :: "string \<Rightarrow> string \<Rightarrow> bool" where
  "contains sub [] = (sub = [])"
| "contains sub (c # cs) = (startswith (c # cs) sub \<or> contains sub cs)"

text \<open>\<^verbatim>\<open>sep.join(parts)\<close>.\<close>

fun str_join :: "string \<Rightarrow> string list \<Rightarrow> string" where
  "str_join sep [] = []"
| "str_join sep [p] = p"
| "str_join sep (p # q # ps) = p @ sep @ str_join sep (q # ps)"

text \<open>
  \<^verbatim>\<open>s.split(sep)\<close> for a separator that is not empty (each call of the module passes a
  literal): the string is read from the left, a separator found ends the part read so
  far and reading goes on behind it. The result always has a last part, which may be
  empty.
\<close>

fun split_from :: "string \<Rightarrow> string \<Rightarrow> string \<Rightarrow> string list" where
  "split_from sep cur [] = [cur]"
| "split_from sep cur (c # cs) =
     (if sep \<noteq> [] \<and> startswith (c # cs) sep
      then cur # split_from sep [] (drop (length sep - 1) cs)
      else split_from sep (cur @ [c]) cs)"

definition str_split :: "string \<Rightarrow> string \<Rightarrow> string list" where
  "str_split s sep = split_from sep [] s"

text \<open>\<^verbatim>\<open>s.split()\<close>: the maximal runs of characters that are not whitespace.\<close>

fun split_ws_from :: "string \<Rightarrow> string \<Rightarrow> string list" where
  "split_ws_from cur [] = (if cur = [] then [] else [cur])"
| "split_ws_from cur (c # cs) =
     (if isspace c then (if cur = [] then split_ws_from [] cs else cur # split_ws_from [] cs)
      else split_ws_from (cur @ [c]) cs)"

definition split_ws :: "string \<Rightarrow> string list" where
  "split_ws s = split_ws_from [] s"

text \<open>
  \<^verbatim>\<open>s.lower()\<close>: below 256 the upper-case letters are A..Z and U+00C0..U+00DE without
  the multiplication sign U+00D7; each is 32 below its lower-case letter, which is bit 5.
\<close>

definition lower_char :: "char \<Rightarrow> char" where
  "lower_char c =
     (let n = (of_char c :: nat)
      in if (65 \<le> n \<and> n \<le> 90) \<or> (192 \<le> n \<and> n \<le> 222 \<and> n \<noteq> 215)
         then (case c of Char b0 b1 b2 b3 b4 b5 b6 b7 \<Rightarrow> Char b0 b1 b2 b3 b4 True b6 b7)
         else c)"

definition lower :: "string \<Rightarrow> string" where
  "lower s = map lower_char s"

section \<open>Exceptions\<close>

text \<open>
  The exceptions an operation of the module can end with. \<open>CLIError\<close> and
  \<open>CLIConnectionError\<close> are the module's own classes (the specification calls them
  CommandError and ConnectionError, and calls \<open>ValueError\<close> ArgumentError); the others
  are raised by the built-in operations the module calls.
\<close>

datatype error =
    CLIError string
  | CLIConnectionError string
  | ValueError string
  | TypeError
  | AttributeError string
  | IndexError
  | KeyError string
  | IOError string
  | XMLSyntaxError

section \<open>The console client: class cli\<close>

text \<open>
  \<open>ssh\<close> is the connected session: it runs a command line on the remote host and gives
  its output, or fails as plumbum's \<open>ProcessExecutionError\<close> does. \<open>bound_cli\<close> is the
  field \<^verbatim>\<open>_cli\<close>, the \<^verbatim>\<open>fs_cli\<close> command with its flags bound.
\<close>

datatype proc_result = ProcessExecutionError string | Stdout string

record cli =
  ssh :: "string list \<Rightarrow> proc_result"
  bound_cli :: "string list"

definition get_cli :: "string list \<Rightarrow> (string \<times> string) list \<Rightarrow> string list" where
  "get_cli args kwargs =
     [''fs_cli''] @ map (\<lambda>arg. ''--'' @ arg) args
       @ map (\<lambda>(key, val). ''--'' @ key @ ''='' @ val) kwargs @ [''-x'']"

definition cli_init ::
  "(string list \<Rightarrow> proc_result) \<Rightarrow> string list \<Rightarrow> (string \<times> string) list \<Rightarrow> cli" where
  "cli_init sess args kwargs = \<lparr>ssh = sess, bound_cli = get_cli args kwargs\<rparr>"

text \<open>
  The loop over \<^verbatim>\<open>erroron.items()\<close>: the predicates are applied to the output in
  order, up to the first that holds. The result says whether one held, with the names
  of the predicates that were applied.
\<close>

fun check_erroron :: "(string \<times> (string \<Rightarrow> bool)) list \<Rightarrow> string \<Rightarrow> bool \<times> string list" where
  "check_erroron [] out = (False, [])"
| "check_erroron ((name, func) # rest) out =
     (if func out then (True, [name])
      else (case check_erroron rest out of (fired, applied) \<Rightarrow> (fired, name # applied)))"

text \<open>
  \<^verbatim>\<open>cli.__call__(*tokens, **erroron)\<close>. The second component lists the predicates
  of \<open>erroron\<close> that the call applied.
\<close>

definition cli_call ::
  "cli \<Rightarrow> string list \<Rightarrow> (string \<times> (string \<Rightarrow> bool)) list \<Rightarrow> (error + string) \<times> string list" where
  "cli_call self tokens erroron =
     (case ssh self (bound_cli self @ [str_join '' '' tokens]) of
        ProcessExecutionError err \<Rightarrow> (Inl (CLIConnectionError err), [])
      | Stdout raw \<Rightarrow>
          (let out = strip raw; lines = splitlines out
           in if lines \<noteq> [] \<and> startswith (last lines) ''-ERR'' then (Inl (CLIError out), [])
              else (case check_erroron erroron out of
                      (True, applied) \<Rightarrow> (Inl (CLIError out), applied)
                    | (False, applied) \<Rightarrow> (Inr out, applied))))"

definition cli_eval :: "cli \<Rightarrow> string \<Rightarrow> (error + string) \<times> string list" where
  "cli_eval self expr = cli_call self [''eval'', expr] []"

section \<open>The document tree\<close>

text \<open>
  An element of an lxml tree: its tag, its attributes in document order, its text (the
  text before its first child, \<open>None\<close> when there is none), its children, and its tail
  (the text between its end and the next sibling, \<open>None\<close> when there is none).
\<close>

datatype element =
  Element (tag: string) (attrib: "(string \<times> string) list") (elem_text: "string option")
    (children: "element list") (elem_tail: "string option")

text \<open>
  What the module takes from its platform. Of lxml, the two entry points it calls:
  \<^verbatim>\<open>etree.fromstring(text, parser)\<close> (also behind \<^verbatim>\<open>etree.parse\<close>) with the module's
  parser, and \<^verbatim>\<open>etree.tostring(tree, pretty_print=flag)\<close>. Of the operating system,
  \<^verbatim>\<open>os.linesep\<close> and \<^verbatim>\<open>time.strftime(format)\<close> at a reading of the clock.
\<close>

record platform =
  fromstring :: "string \<Rightarrow> error + element"
  tostring :: "bool \<Rightarrow> element \<Rightarrow> string"
  linesep :: string
  strftime :: "string \<Rightarrow> real \<Rightarrow> string"

section \<open>The remote host\<close>

text \<open>
  What the operations act on: the files of the remote host, by path; the calls made to
  the collaborators (file transfer, console, logger), in order; and the wall clock, of
  which \<^verbatim>\<open>time.time()\<close> takes the next reading (the readings are those of the system
  clock and need not increase: the clock can be set back). \<open>writable\<close> says where the file
  transfer session may write. An event is one call with its arguments: of the file
  transfer, of the console (\<open>Api\<close> for its method \<^verbatim>\<open>api\<close>, \<open>Call\<close> for a call of the
  console itself) or of a logger; \<open>LogSeconds what t\<close> is the message that \<open>what\<close> took
  \<open>t\<close> seconds.
\<close>

datatype event =
    Getfo string
  | Putfo string string
  | Rename string string
  | Write string string
  | Api string
  | Call "string list"
  | LogInfo string
  | LogDebug string
  | LogSeconds string real

record remote =
  files :: "string \<rightharpoonup> string"
  writable :: "string \<Rightarrow> bool"
  trace :: "event list"
  wallclock :: "nat \<Rightarrow> real"
  ticks :: nat

definition emit :: "event \<Rightarrow> remote \<Rightarrow> remote" where
  "emit e w = w\<lparr>trace := trace w @ [e]\<rparr>"

definition time_time :: "remote \<Rightarrow> real \<times> remote" where
  "time_time w = (wallclock w (ticks w), w\<lparr>ticks := Suc (ticks w)\<rparr>)"

text \<open>
  \<^verbatim>\<open>sftp.putfo(fl, remotepath)\<close> and writing through \<^verbatim>\<open>sftp.open(path, 'w')\<close> replace the
  file's content, \<^verbatim>\<open>sftp.getfo(remotepath, fl)\<close> reads it, \<^verbatim>\<open>sftp.rename(old, new)\<close>
  moves it; each fails with \<open>IOError\<close> where the host refuses.
\<close>

definition sftp_putfo :: "string \<Rightarrow> string \<Rightarrow> remote \<Rightarrow> (error + unit) \<times> remote" where
  "sftp_putfo data remotepath w =
     (if writable w remotepath
      then (Inr (), emit (Putfo remotepath data) (w\<lparr>files := (files w)(remotepath \<mapsto> data)\<rparr>))
      else (Inl (IOError remotepath), emit (Putfo remotepath data) w))"

definition sftp_write :: "string \<Rightarrow> string \<Rightarrow> remote \<Rightarrow> (error + unit) \<times> remote" where
  "sftp_write remotepath data w =
     (if writable w remotepath
      then (Inr (), emit (Write remotepath data) (w\<lparr>files := (files w)(remotepath \<mapsto> data)\<rparr>))
      else (Inl (IOError remotepath), emit (Write remotepath data) w))"

definition sftp_getfo :: "string \<Rightarrow> remote \<Rightarrow> (error + string) \<times> remote" where
  "sftp_getfo remotepath w =
     (case files w remotepath of
        None \<Rightarrow> (Inl (IOError remotepath), emit (Getfo remotepath) w)
      | Some data \<Rightarrow> (Inr data, emit (Getfo remotepath) w))"

definition sftp_rename :: "string \<Rightarrow> string \<Rightarrow> remote \<Rightarrow> (error + unit) \<times> remote" where
  "sftp_rename oldpath newpath w =
     (case files w oldpath of
        None \<Rightarrow> (Inl (IOError oldpath), emit (Rename oldpath newpath) w)
      | Some data \<Rightarrow>
          if files w newpath \<noteq> None \<or> \<not> writable w newpath
          then (Inl (IOError newpath), emit (Rename oldpath newpath) w)
          else (Inr (), emit (Rename oldpath newpath)
                  (w\<lparr>files := (files w)(oldpath := None, newpath \<mapsto> data)\<rparr>)))"

section \<open>The restorable file\<close>

text \<open>
  Modelled from the spec: class \<open>RestoreFile\<close> of \<^verbatim>\<open>sandswitches.utils\<close> is not among the
  sources. By the specification it identifies a remote path and holds the bytes captured
  there.
\<close>

record restorefile =
  path :: string
  snapshot :: string

text \<open>
  Modelled from the spec: the constructor of \<open>RestoreFile\<close>, which takes the snapshot of
  the file at the path when the handle is made.
\<close>

definition RestoreFile :: "string \<Rightarrow> remote \<Rightarrow> error + restorefile" where
  "RestoreFile p w =
     (case files w p of
        None \<Rightarrow> Inl (IOError p)
      | Some data \<Rightarrow> Inr \<lparr>path = p, snapshot = data\<rparr>)"

text \<open>
  Modelled from the spec: \<^verbatim>\<open>RestoreFile.restore\<close> overwrites the file at the path with the
  snapshot and fails with \<open>IOError\<close> when the write fails.
\<close>

definition restore :: "restorefile \<Rightarrow> remote \<Rightarrow> (error + unit) \<times> remote" where
  "restore f w = sftp_write (path f) (snapshot f) w"

section \<open>The configuration manager: class ConfigManager\<close>

text \<open>
  The fields of a manager (\<open>rfile\<close> is the field \<^verbatim>\<open>file\<close>). \<^verbatim>\<open>root\<close> is
  \<^verbatim>\<open>etree.getroot()\<close>, the same element as \<open>etree\<close>. The console \<^verbatim>\<open>self.cli\<close> is used in
  two ways: called as the class \<open>cli\<close> above is, and through a method \<^verbatim>\<open>api\<close> that this
  module does not define, which is the field \<open>api\<close>: the output of a console command, or
  the exception it ends with. The file transfer session and the logger act on the remote
  host above. A session is a manager together with the host it manages; an operation
  returns its result, or the exception it ends with, and the session after it.
\<close>

record manager =
  etree :: element
  rfile :: restorefile
  fscli :: cli
  api :: "string \<Rightarrow> error + string"
  touched :: "string list"

record session =
  mng :: manager
  host :: remote

definition ConfigManager ::
  "restorefile \<Rightarrow> element \<Rightarrow> cli \<Rightarrow> (string \<Rightarrow> error + string) \<Rightarrow> manager" where
  "ConfigManager rf tree console console_api =
     \<lparr>etree = tree, rfile = rf, fscli = console, api = console_api, touched = []\<rparr>"

definition fscli_api :: "manager \<Rightarrow> string \<Rightarrow> remote \<Rightarrow> (error + string) \<times> remote" where
  "fscli_api self command w = (api self command, emit (Api command) w)"

definition fscli_call :: "manager \<Rightarrow> string list \<Rightarrow> remote \<Rightarrow> (error + string) \<times> remote" where
  "fscli_call self tokens w = (fst (cli_call (fscli self) tokens []), emit (Call tokens) w)"

definition quoted :: "string \<Rightarrow> string" where
  "quoted s = [CHR 0x27] @ s @ [CHR 0x27]"

text \<open>\<^verbatim>\<open>ConfigManager.revert\<close>.\<close>

definition revert :: "session \<Rightarrow> (error + unit) \<times> session" where
  "revert s =
     (let w1 = emit (LogDebug (''restoring '' @ quoted (path (rfile (mng s))))) (host s)
      in case restore (rfile (mng s)) w1 of (r, w2) \<Rightarrow> (r, s\<lparr>host := w2\<rparr>))"

text \<open>
  \<^verbatim>\<open>ConfigManager.commit\<close>. The last message gives the second reading of the clock
  minus the first.
\<close>

definition commit :: "platform \<Rightarrow> session \<Rightarrow> (error + unit) \<times> session" where
  "commit pf s =
     (case time_time (host s) of (now, w1) \<Rightarrow>
      let w2 = emit (LogInfo (''saving '' @ quoted (path (rfile (mng s))))) w1
      in case sftp_putfo (tostring pf True (etree (mng s))) (path (rfile (mng s))) w2 of
           (Inl e, w3) \<Rightarrow> (Inl e, s\<lparr>host := w3\<rparr>)
         | (Inr u, w3) \<Rightarrow>
             (case fscli_api (mng s) ''reloadxml'' w3 of
                (Inl e, w4) \<Rightarrow> (Inl e, s\<lparr>host := w4\<rparr>)
              | (Inr out, w4) \<Rightarrow>
                  (case time_time w4 of (t, w5) \<Rightarrow>
                     (Inr (), s\<lparr>host := emit (LogSeconds ''freeswitch.xml commit'' (t - now)) w5\<rparr>))))"

section \<open>The user directory: ConfigManager.get\_users\<close>

text \<open>
  The keyword arguments of a call are the pairs of name and value, in the order the
  dictionary gives them. The first loop of \<^verbatim>\<open>get_users\<close> checks each name against
  \<open>allowed\<close> and collects the arguments of the console command in \<open>args\<close>.
\<close>

definition allowed :: "string list" where
  "allowed = [''domain'', ''group'', ''user'', ''context'']"

fun list_users_args :: "(string \<times> string) list \<Rightarrow> string list \<Rightarrow> error + string list" where
  "list_users_args [] args = Inr args"
| "list_users_args ((argname, val) # kwargs) args =
     (if argname \<notin> set allowed
      then Inl (ValueError (argname @ '' is not a valid argument to list_users''))
      else list_users_args kwargs (args @ [argname @ '' '' @ val]))"

text \<open>
  The built-ins that \<^verbatim>\<open>get_users\<close> calls are those of Python from version 3.7 on, as the
  strings above are: \<^verbatim>\<open>async\<close> and \<^verbatim>\<open>await\<close> are keywords there, and a \<^verbatim>\<open>dict\<close>
  gives its keys in the order of their insertion, which is the order of the result of
  \<^verbatim>\<open>get_users\<close>. (The classifiers of \<^verbatim>\<open>setup.py\<close> name Python 2.7 and 3.5, where a
  \<^verbatim>\<open>dict\<close> promises no order of its keys.)

  \<^verbatim>\<open>str.isidentifier\<close> on code points below 256: the first character is a letter
  (\<open>xid_start\<close>) or the underscore, each further one (\<open>xid_continue\<close>) a letter, a digit,
  the underscore or the middle dot U+00B7, where the letters are A..Z, a..z, U+00AA,
  U+00B5, U+00BA, U+00C0..U+00D6, U+00D8..U+00F6 and U+00F8..U+00FF.
\<close>

definition xid_start :: "char \<Rightarrow> bool" where
  "xid_start c =
     (let n = (of_char c :: nat)
      in (65 \<le> n \<and> n \<le> 90) \<or> (97 \<le> n \<and> n \<le> 122) \<or> n = 170 \<or> n = 181 \<or> n = 186
         \<or> (192 \<le> n \<and> n \<le> 214) \<or> (216 \<le> n \<and> n \<le> 246) \<or> (248 \<le> n \<and> n \<le> 255))"

definition xid_continue :: "char \<Rightarrow> bool" where
  "xid_continue c =
     (let n = (of_char c :: nat) in xid_start c \<or> (48 \<le> n \<and> n \<le> 57) \<or> n = 95 \<or> n = 183)"

definition isidentifier :: "string \<Rightarrow> bool" where
  "isidentifier s =
     (case s of
        [] \<Rightarrow> False
      | c # cs \<Rightarrow> (xid_start c \<or> c = CHR ''_'') \<and> list_all xid_continue cs)"

text \<open>\<^verbatim>\<open>keyword.kwlist\<close>, which \<^verbatim>\<open>keyword.iskeyword\<close> looks a name up in.\<close>

definition kwlist :: "string list" where
  "kwlist = [''False'', ''None'', ''True'', ''and'', ''as'', ''assert'', ''async'', ''await'',
     ''break'', ''class'', ''continue'', ''def'', ''del'', ''elif'', ''else'', ''except'',
     ''finally'', ''for'', ''from'', ''global'', ''if'', ''import'', ''in'', ''is'', ''lambda'',
     ''nonlocal'', ''not'', ''or'', ''pass'', ''raise'', ''return'', ''try'', ''while'', ''with'',
     ''yield'']"

text \<open>
  \<^verbatim>\<open>repr\<close> of a string, which the messages of \<^verbatim>\<open>namedtuple\<close> show a name with: between
  single quotes, or double quotes when the string has a single quote and no double one;
  the quote used and the backslash are escaped with a backslash, tab, line feed and
  carriage return are written \<^verbatim>\<open>\t\<close>, \<^verbatim>\<open>\n\<close> and \<^verbatim>\<open>\r\<close>, and any other character that is
  not printable is written \<^verbatim>\<open>\x\<close> with its two hexadecimal digits. Below 256 the
  printable characters are U+0020..U+007E, U+00A1..U+00AC and U+00AE..U+00FF.
\<close>

definition isprintable :: "char \<Rightarrow> bool" where
  "isprintable c =
     (let n = (of_char c :: nat)
      in (32 \<le> n \<and> n \<le> 126) \<or> (161 \<le> n \<and> n \<le> 172) \<or> (174 \<le> n \<and> n \<le> 255))"

definition hexdigit :: "nat \<Rightarrow> char" where
  "hexdigit n = ''0123456789abcdef'' ! n"

definition repr_char :: "char \<Rightarrow> char \<Rightarrow> string" where
  "repr_char q c =
     (if c = q \<or> c = CHR 0x5C then [CHR 0x5C, c]
      else if c = CHR 0x09 then [CHR 0x5C, CHR ''t'']
      else if c = CHR 0x0A then [CHR 0x5C, CHR ''n'']
      else if c = CHR 0x0D then [CHR 0x5C, CHR ''r'']
      else if isprintable c then [c]
      else [CHR 0x5C, CHR ''x'', hexdigit ((of_char c :: nat) div 16), hexdigit ((of_char c :: nat) mod 16)])"

definition repr :: "string \<Rightarrow> string" where
  "repr s =
     (let q = (if CHR 0x27 \<in> set s \<and> CHR 0x22 \<notin> set s then CHR 0x22 else CHR 0x27)
      in [q] @ concat (map (repr_char q) s) @ [q])"

text \<open>
  \<^verbatim>\<open>collections.namedtuple(typename, field_names)\<close> with a list of field names. Its first
  loop takes the type name and then each field name in turn and raises \<open>ValueError\<close> at the
  first that is not an identifier or is a keyword; its second loop takes each field name in
  turn, with the names \<open>seen\<close> before it, and raises \<open>ValueError\<close> at the first that starts
  with an underscore or was seen before. The class made is given by its field names; an
  instance is the list of its fields, each with its value.
\<close>

fun check_names :: "string list \<Rightarrow> error + unit" where
  "check_names [] = Inr ()"
| "check_names (name # names) =
     (if \<not> isidentifier name
      then Inl (ValueError (''Type names and field names must be valid identifiers: '' @ repr name))
      else if name \<in> set kwlist
      then Inl (ValueError (''Type names and field names cannot be a keyword: '' @ repr name))
      else check_names names)"

fun check_fields :: "string set \<Rightarrow> string list \<Rightarrow> error + unit" where
  "check_fields seen [] = Inr ()"
| "check_fields seen (name # names) =
     (if startswith name ''_''
      then Inl (ValueError (''Field names cannot start with an underscore: '' @ repr name))
      else if name \<in> seen
      then Inl (ValueError (''Encountered duplicate field name: '' @ repr name))
      else check_fields (insert name seen) names)"

definition namedtuple :: "string \<Rightarrow> string list \<Rightarrow> error + string list" where
  "namedtuple typename field_names =
     (case check_names (typename # field_names) of
        Inl e \<Rightarrow> Inl e
      | Inr u \<Rightarrow>
          (case check_fields {} field_names of
             Inl e \<Rightarrow> Inl e
           | Inr u' \<Rightarrow> Inr field_names))"

type_synonym user_entry = "(string \<times> string) list"

definition UserEntry :: "string list \<Rightarrow> string list \<Rightarrow> error + user_entry" where
  "UserEntry fnames vals =
     (if length vals \<noteq> length fnames then Inl TypeError else Inr (zip fnames vals))"

definition getattr :: "user_entry \<Rightarrow> string \<Rightarrow> error + string" where
  "getattr u name = (case map_of u name of None \<Rightarrow> Inl (AttributeError name) | Some v \<Rightarrow> Inr v)"

text \<open>The loop that makes a \<open>UserEntry\<close> of each row, in \<open>users\<close>.\<close>

fun collect_users :: "string list \<Rightarrow> string list \<Rightarrow> user_entry list \<Rightarrow> error + user_entry list" where
  "collect_users fnames [] users = Inr users"
| "collect_users fnames (row # rows) users =
     (case UserEntry fnames (str_split row ''|'') of
        Inl e \<Rightarrow> Inl e
      | Inr u \<Rightarrow> collect_users fnames rows (users @ [u]))"

text \<open>
  \<^verbatim>\<open>domains.setdefault(key, []).append(user)\<close> on a \<^verbatim>\<open>dict\<close>, which is the list of its
  items in the order of insertion (Python 3.7 and later): a new key goes to the end, a
  known key keeps its place.
\<close>

definition setdefault_append ::
  "(string \<times> user_entry list) list \<Rightarrow> string \<Rightarrow> user_entry \<Rightarrow> (string \<times> user_entry list) list" where
  "setdefault_append domains key u =
     (case map_of domains key of
        None \<Rightarrow> domains @ [(key, [u])]
      | Some us \<Rightarrow> map (\<lambda>(k, us'). if k = key then (k, us' @ [u]) else (k, us')) domains)"

fun pack_users ::
  "user_entry list \<Rightarrow> (string \<times> user_entry list) list \<Rightarrow> error + (string \<times> user_entry list) list" where
  "pack_users [] domains = Inr domains"
| "pack_users (u # users) domains =
     (case getattr u ''domain'' of
        Inl e \<Rightarrow> Inl e
      | Inr d \<Rightarrow> pack_users users (setdefault_append domains d u))"

text \<open>What \<^verbatim>\<open>get_users\<close> does with the console's output.\<close>

definition parse_users :: "string \<Rightarrow> error + (string \<times> user_entry list) list" where
  "parse_users out =
     (let lines = splitlines out; res = take (length lines - 2) lines
      in case res of
           [] \<Rightarrow> Inl IndexError
         | header # rows \<Rightarrow>
             (case namedtuple ''UserEntry'' (str_split header ''|'') of
                Inl e \<Rightarrow> Inl e
              | Inr fnames \<Rightarrow>
                  (case collect_users fnames rows [] of
                     Inl e \<Rightarrow> Inl e
                   | Inr users \<Rightarrow> pack_users users [])))"

definition get_users ::
  "session \<Rightarrow> (string \<times> string) list \<Rightarrow> (error + (string \<times> user_entry list) list) \<times> session" where
  "get_users s kwargs =
     (case list_users_args kwargs [] of
        Inl e \<Rightarrow> (Inl e, s)
      | Inr args \<Rightarrow>
          (case fscli_call (mng s) (''list_users'' # args) (host s) of
             (Inl e, w) \<Rightarrow> (Inl e, s\<lparr>host := w\<rparr>)
           | (Inr out, w) \<Rightarrow> (parse_users out, s\<lparr>host := w\<rparr>)))"



section \<open>The document aggregator: manage\_config\<close>

text \<open>
  \<^verbatim>\<open>os.path.join(rootpath, 'freeswitch.xml')\<close> on a POSIX host, and the XPath query
  \<^verbatim>\<open>section/configuration[@name="sofia.conf"]\<close> from the root of the tree: the children
  \<^verbatim>\<open>configuration\<close> with that name of the root's children \<^verbatim>\<open>section\<close>.
\<close>

definition os_path_join :: "string \<Rightarrow> string \<Rightarrow> string" where
  "os_path_join a b =
     (if startswith b ''/'' then b
      else if a = [] \<or> last a = CHR ''/'' then a @ b
      else a @ ''/'' @ b)"

definition xpath_sofia_conf :: "element \<Rightarrow> element list" where
  "xpath_sofia_conf root_elem =
     concat (map (\<lambda>section.
                    filter (\<lambda>c. tag c = ''configuration''
                                \<and> map_of (attrib c) ''name'' = Some ''sofia.conf'')
                      (children section))
               (filter (\<lambda>e. tag e = ''section'') (children root_elem)))"

text \<open>
  The loop over \<^verbatim>\<open>root.iter()\<close>: \<open>iter\<close> lists the elements of a tree in document order,
  and the loop's body gives each element no tail and, when it has a text, the text's
  lines that are not blank, joined by the line separator.
\<close>

fun iter :: "element \<Rightarrow> element list" where
  "iter (Element t a tx cs tail) = Element t a tx cs tail # concat (map iter cs)"

definition nonblank_lines :: "string \<Rightarrow> string \<Rightarrow> string" where
  "nonblank_lines sep tx = str_join sep (filter (\<lambda>s. strip s \<noteq> []) (splitlines tx))"

fun normalize_text :: "string \<Rightarrow> element \<Rightarrow> element" where
  "normalize_text sep (Element t a tx cs tail) =
     Element t a (map_option (nonblank_lines sep) tx) (map (normalize_text sep) cs) None"

text \<open>
  The branch taken when the root file is not an aggregate: the server's merged view is
  fetched and normalized, the root file is renamed to a backup named by the time, and the
  normalized tree is written in its place.
\<close>

definition dump_aggregate ::
  "platform \<Rightarrow> string \<Rightarrow> (string \<Rightarrow> error + string) \<Rightarrow> remote \<Rightarrow> (error + element) \<times> remote" where
  "dump_aggregate pf confpath console_api w =
     (let w1 = emit (Api ''xml_locate root'')
                 (emit (LogInfo ''Dumping aggregate freeswitch.xml config...'') w)
      in case console_api ''xml_locate root'' of
           Inl e \<Rightarrow> (Inl e, w1)
         | Inr out \<Rightarrow>
             (case fromstring pf out of
                Inl e \<Rightarrow> (Inl e, w1)
              | Inr root_elem \<Rightarrow>
                  (case time_time w1 of (now, w2) \<Rightarrow>
                   let tree = normalize_text (linesep pf) root_elem;
                       backup = confpath @ strftime pf ''_backup_%Y-%m-%d-%H-%M-%S'' now;
                       w3 = emit (LogInfo (''Backing up old '' @ confpath @ '' as '' @ backup @ ''...'')) w2
                   in case sftp_rename confpath backup w3 of
                        (Inl e, w4) \<Rightarrow> (Inl e, w4)
                      | (Inr u, w4) \<Rightarrow>
                          (case sftp_write confpath (tostring pf True tree) w4 of
                             (Inl e, w5) \<Rightarrow> (Inl e, w5)
                           | (Inr u', w5) \<Rightarrow> (Inr tree, w5)))))"

text \<open>
  \<^verbatim>\<open>manage_config(rootpath, sftp, fscli, log)\<close>, up to the manager it builds. The local
  temporary file is the text \<open>src\<close>. The sections that the last loop attaches to the
  manager are built by modules that are not among the sources (\<^verbatim>\<open>orms\<close>, \<^verbatim>\<open>schema\<close>);
  that loop is left out.
\<close>

definition manage_config ::
  "platform \<Rightarrow> string \<Rightarrow> cli \<Rightarrow> (string \<Rightarrow> error + string) \<Rightarrow> remote \<Rightarrow> (error + manager) \<times> remote" where
  "manage_config pf rootpath console console_api w =
     (let confpath = os_path_join rootpath ''freeswitch.xml''
      in case time_time w of (start, w1) \<Rightarrow>
         (case sftp_getfo confpath w1 of
            (Inl e, w2) \<Rightarrow> (Inl e, w2)
          | (Inr src, w2) \<Rightarrow>
              (case fromstring pf src of
                 Inl e \<Rightarrow> (Inl e, w2)
               | Inr parsed \<Rightarrow>
                   (case time_time w2 of (t, w3) \<Rightarrow>
                    let w4 = emit (LogSeconds (''Parsing '' @ confpath @ '' into an etree'') (t - start)) w3
                    in case (if xpath_sofia_conf parsed = []
                             then dump_aggregate pf confpath console_api w4
                             else (Inr parsed, w4)) of
                         (Inl e, w5) \<Rightarrow> (Inl e, w5)
                       | (Inr tree, w5) \<Rightarrow>
                           (case RestoreFile confpath w5 of
                              Inl e \<Rightarrow> (Inl e, w5)
                            | Inr rf \<Rightarrow> (Inr (ConfigManager rf tree console console_api), w5))))))"

section \<open>The status table: ConfigManager.sofia\_status\<close>

text \<open>
  A row of the table is a dictionary from column name to value, and the result holds three
  dictionaries from name to row. A dictionary is the list of its items in insertion order:
  \<^verbatim>\<open>d[k] = v\<close> is \<^const>\<open>AList.update\<close>, which keeps the place of a key that is already
  there, and \<^verbatim>\<open>d.pop(k)\<close> removes the item with \<^const>\<open>AList.delete\<close>.
\<close>

type_synonym row = "(string \<times> string) list"

record status =
  profiles :: "(string \<times> row) list"
  gateways :: "(string \<times> row) list"
  aliases :: "(string \<times> row) list"

text \<open>\<^verbatim>\<open>xs.index(x)\<close>: the place of the first \<open>x\<close>, \<open>None\<close> where Python raises \<open>ValueError\<close>.\<close>

fun index_of :: "'a list \<Rightarrow> 'a \<Rightarrow> nat option" where
  "index_of [] x = None"
| "index_of (y # ys) x = (if y = x then Some 0 else map_option Suc (index_of ys x))"

text \<open>
  The body of the loop over the lines, up to the dispatch: the cells of the line, the name
  popped from them, the row built from the other columns, and the type popped from the row.
\<close>

definition status_row :: "string list \<Rightarrow> nat \<Rightarrow> string \<Rightarrow> error + (string \<times> string \<times> row)" where
  "status_row colnames iname line =
     (let cells = map strip (str_split line [CHR 0x09])
      in if length cells \<le> iname then Inl IndexError
         else let name = cells ! iname;
                  rest = take iname cells @ drop (Suc iname) cells;
                  row = fold (\<lambda>(k, v) d. AList.update (lower k) v d) (zip colnames rest) []
              in case map_of row ''type'' of
                   None \<Rightarrow> Inl (KeyError ''type'')
                 | Some tp \<Rightarrow> Inr (name, tp, AList.delete ''type'' row))"

text \<open>
  The dispatch on the type. Unpacking \<^verbatim>\<open>name.split("::")\<close> into two names raises
  \<open>ValueError\<close> unless the split has exactly two parts.
\<close>

definition store_row :: "status \<Rightarrow> string \<times> string \<times> row \<Rightarrow> error + status" where
  "store_row st r =
     (case r of (name, tp, row) \<Rightarrow>
        if tp = ''profile'' then Inr (st\<lparr>profiles := AList.update name row (profiles st)\<rparr>)
        else if tp = ''gateway'' then
          (case str_split name ''::'' of
             [profname, gwname] \<Rightarrow>
               Inr (st\<lparr>gateways := AList.update gwname (AList.update ''profile'' profname row)
                                      (gateways st)\<rparr>)
           | [part] \<Rightarrow> Inl (ValueError ''not enough values to unpack (expected 2, got 1)'')
           | parts \<Rightarrow> Inl (ValueError ''too many values to unpack (expected 2)''))
        else if tp = ''alias'' then Inr (st\<lparr>aliases := AList.update name row (aliases st)\<rparr>)
        else Inr st)"

fun status_rows :: "string list \<Rightarrow> nat \<Rightarrow> string list \<Rightarrow> status \<Rightarrow> error + status" where
  "status_rows colnames iname [] st = Inr st"
| "status_rows colnames iname (line # lines) st =
     (case status_row colnames iname line of
        Inl e \<Rightarrow> Inl e
      | Inr r \<Rightarrow>
          (case store_row st r of
             Inl e \<Rightarrow> Inl e
           | Inr st' \<Rightarrow> status_rows colnames iname lines st'))"

text \<open>What \<^verbatim>\<open>sofia_status\<close> does with the console's output.\<close>

definition parse_status :: "string \<Rightarrow> error + status" where
  "parse_status out =
     (let lines = filter (\<lambda>line. \<not> contains ''==='' line) (splitlines out)
      in if lines = [] then Inl IndexError
         else let lines1 = butlast lines
              in if lines1 = [] then Inl IndexError
                 else let colnames = map lower (split_ws (hd lines1))
                      in case index_of colnames ''name'' of
                           None \<Rightarrow> Inl (ValueError (quoted ''name'' @ '' is not in list''))
                         | Some iname \<Rightarrow>
                             status_rows (remove1 ''name'' colnames) iname (tl lines1)
                               \<lparr>profiles = [], gateways = [], aliases = []\<rparr>)"

definition sofia_status :: "session \<Rightarrow> (error + status) \<times> session" where
  "sofia_status s =
     (case fscli_api (mng s) ''sofia status'' (host s) of
        (Inl e, w) \<Rightarrow> (Inl e, s\<lparr>host := w\<rparr>)
      | (Inr out, w) \<Rightarrow> (parse_status out, s\<lparr>host := w\<rparr>))"

text \<open>
  For the statements: the cell of a line under a column of the table, and \<^verbatim>\<open>s.count(sep)\<close>,
  the number of occurrences of a separator found from the left without overlap.
\<close>

definition cell :: "string list \<Rightarrow> string \<Rightarrow> string \<Rightarrow> string" where
  "cell cols line c =
     (case index_of cols c of
        None \<Rightarrow> []
      | Some i \<Rightarrow> strip (str_split line [CHR 0x09] ! i))"

fun str_count :: "string \<Rightarrow> string \<Rightarrow> nat" where
  "str_count [] sep = 0"
| "str_count (c # cs) sep =
     (if sep \<noteq> [] \<and> startswith (c # cs) sep
      then Suc (str_count (drop (length sep - 1) cs) sep)
      else str_count cs sep)"

text \<open>
  For the statements: the two parts of a gateway's name, the profile before \<^verbatim>\<open>::\<close> and the
  gateway behind it.
\<close>

definition profile_of :: "string \<Rightarrow> string" where
  "profile_of name = hd (str_split name ''::'')"

definition gateway_of :: "string \<Rightarrow> string" where
  "gateway_of name = last (str_split name ''::'')"

section \<open>Examples\<close>

text \<open>
  A console for the examples: \<^verbatim>\<open>uuid_kill\<close> of an unknown channel answers with an
  error line behind a first line, \<^verbatim>\<open>status\<close> answers \<^verbatim>\<open>UP\<close>, \<^verbatim>\<open>show calls\<close> answers
  with an empty listing, and any other command finds no connection.
\<close>

definition demo_session :: "string list \<Rightarrow> proc_result" where
  "demo_session argv =
     (if argv = [''fs_cli'', ''-x'', ''uuid_kill 1234'']
      then Stdout (''killing 1234'' @ [CHR 0x0A] @ ''-ERR no such channel'' @ [CHR 0x0A])
      else if argv = [''fs_cli'', ''-x'', ''status''] then Stdout ('' UP '' @ [CHR 0x0A])
      else if argv = [''fs_cli'', ''-x'', ''show calls''] then Stdout ([CHR 0x0A] @ ''0 total.'' @ [CHR 0x0A])
      else ProcessExecutionError ''connection refused'')"

definition demo_cli :: cli where
  "demo_cli = cli_init demo_session [] []"

text \<open>
  Examples: a manager of a one-section document whose file holds an older text, on a host
  whose clock advances by half a second per reading.
\<close>

definition demo_tree :: element where
  "demo_tree =
     Element ''document'' [(''type'', ''freeswitch/xml'')] None
       [Element ''section'' [(''name'', ''configuration'')] None [] None] None"

definition demo_platform :: platform where
  "demo_platform =
     \<lparr>fromstring = (\<lambda>src. if src = ''<document/>'' then Inr (Element ''document'' [] None [] None)
                             else Inl XMLSyntaxError),
      tostring = (\<lambda>pretty e. ''<'' @ tag e @ ''>'' @ (if pretty then [CHR 0x0A] else [])),
      linesep = [CHR 0x0A],
      strftime = (\<lambda>fmt t. ''_backup_2016-01-01-00-00-00'')\<rparr>"

definition demo_host :: remote where
  "demo_host =
     \<lparr>files = [''/etc/freeswitch/freeswitch.xml'' \<mapsto> ''<old/>''],
      writable = (\<lambda>p. True), trace = [], wallclock = (\<lambda>n. real n / 2), ticks = 0\<rparr>"

definition demo_manager :: manager where
  "demo_manager =
     ConfigManager \<lparr>path = ''/etc/freeswitch/freeswitch.xml'', snapshot = ''<old/>''\<rparr>
       demo_tree demo_cli (\<lambda>command. if command = ''reloadxml'' then Inr ''+OK [Success]''
                                       else Inl (CLIError ''-ERR no reply''))"

definition demo :: session where
  "demo = \<lparr>mng = demo_manager, host = demo_host\<rparr>"

text \<open>
  Examples: the same manager on a host whose clock reads 1000 seconds at first and is set
  back by one second before the next reading.
\<close>

definition set_back_demo :: session where
  "set_back_demo =
     \<lparr>mng = demo_manager, host = demo_host\<lparr>wallclock := (\<lambda>n. if n = 0 then 1000 else 999)\<rparr>\<rparr>"

text \<open>
  Examples: a console whose \<^verbatim>\<open>list_users group default\<close> lists three users of two
  domains, behind a header and before the two trailer lines.
\<close>

definition users_listing :: string where
  "users_listing =
     ''userid|context|domain|group'' @ [CHR 0x0A]
     @ ''1000|default|example.com|default'' @ [CHR 0x0A]
     @ ''1001|default|other.org|default'' @ [CHR 0x0A]
     @ ''1002|public|example.com|default'' @ [CHR 0x0A]
     @ [CHR 0x0A] @ ''+OK''"

definition users_session :: "string list \<Rightarrow> proc_result" where
  "users_session argv =
     (if argv = [''fs_cli'', ''-x'', ''list_users group default'']
      then Stdout (users_listing @ [CHR 0x0A])
      else ProcessExecutionError ''connection refused'')"

definition users_demo :: session where
  "users_demo =
     \<lparr>mng = demo_manager\<lparr>fscli := cli_init users_session [] []\<rparr>, host = demo_host\<rparr>"

text \<open>
  Examples: a merged view whose section has a text of three lines, the middle one blank,
  and a tail that is not blank; an aggregate with its sofia section; and a platform that
  parses the three texts the examples read.
\<close>

definition merged_tree :: element where
  "merged_tree =
     Element ''document'' [(''type'', ''freeswitch/xml'')] (Some ([CHR 0x0A] @ ''  '' @ [CHR 0x0A]))
       [Element ''section'' [(''name'', ''configuration'')]
          (Some ('' a '' @ [CHR 0x0A] @ ''   '' @ [CHR 0x0A] @ ''b'')) [] (Some ''and tail'')]
       None"

definition aggregate_tree :: element where
  "aggregate_tree =
     Element ''document'' [(''type'', ''freeswitch/xml'')] None
       [Element ''section'' [(''name'', ''configuration'')] None
          [Element ''configuration'' [(''name'', ''sofia.conf'')] None [] None] None]
       None"

definition agg_platform :: platform where
  "agg_platform =
     demo_platform\<lparr>fromstring :=
       (\<lambda>src. if src = ''<old/>'' then Inr (Element ''old'' [] None [] None)
               else if src = ''<merged/>'' then Inr merged_tree
               else if src = ''<aggregate/>'' then Inr aggregate_tree
               else Inl XMLSyntaxError)\<rparr>"

definition agg_api :: "string \<Rightarrow> error + string" where
  "agg_api command =
     (if command = ''xml_locate root'' then Inr ''<merged/>'' else Inl (CLIError ''-ERR no reply''))"

definition aggregate_host :: remote where
  "aggregate_host = demo_host\<lparr>files := [''/etc/freeswitch/freeswitch.xml'' \<mapsto> ''<aggregate/>'']\<rparr>"

text \<open>
  Examples: a status table with a profile, a gateway of that profile, an alias and a row
  of a type the parser does not know.
\<close>

definition table_header :: string where
  "table_header = ''  Name'' @ [CHR 0x09] @ '' Type'' @ [CHR 0x09] @ ''Data'' @ [CHR 0x09] @ ''State''"

definition row_profile :: string where
  "row_profile = '' external'' @ [CHR 0x09] @ ''profile'' @ [CHR 0x09] @ ''sip:a@x:5080''
     @ [CHR 0x09] @ ''RUNNING (0)''"

definition row_gateway :: string where
  "row_gateway = ''external::example.com'' @ [CHR 0x09] @ ''gateway'' @ [CHR 0x09] @ ''sip:joe@example.com''
     @ [CHR 0x09] @ ''NOREG''"

definition row_alias :: string where
  "row_alias = ''ext'' @ [CHR 0x09] @ ''alias'' @ [CHR 0x09] @ ''external'' @ [CHR 0x09] @ ''ALIASED''"

definition row_other :: string where
  "row_other = ''odd'' @ [CHR 0x09] @ ''widget'' @ [CHR 0x09] @ ''x'' @ [CHR 0x09] @ ''y''"

definition status_table :: string where
  "status_table =
     table_header @ [CHR 0x0A] @ ''====='' @ [CHR 0x0A]
     @ row_profile @ [CHR 0x0A] @ row_gateway @ [CHR 0x0A] @ row_alias @ [CHR 0x0A]
     @ row_other @ [CHR 0x0A] @ ''====='' @ [CHR 0x0A] @ ''1 profile 1 alias''"

definition table_demo :: session where
  "table_demo =
     \<lparr>mng = demo_manager\<lparr>api := (\<lambda>command. if command = ''sofia status'' then Inr status_table
                                              else Inl (CLIError ''-ERR no reply''))\<rparr>,
      host = demo_host\<rparr>"

text \<open>
  Examples: a table with two gateways of the same name under two profiles, and a table
  with a gateway whose name has no profile.
\<close>

definition row_gw1 :: string where
  "row_gw1 = ''p1::gw'' @ [CHR 0x09] @ ''gateway'' @ [CHR 0x09] @ ''sip:a@x'' @ [CHR 0x09] @ ''NOREG''"

definition row_gw2 :: string where
  "row_gw2 = ''p2::gw'' @ [CHR 0x09] @ ''gateway'' @ [CHR 0x09] @ ''sip:b@y'' @ [CHR 0x09] @ ''NOREG''"

definition row_lonely :: string where
  "row_lonely = ''lonely'' @ [CHR 0x09] @ ''gateway'' @ [CHR 0x09] @ ''sip:x'' @ [CHR 0x09] @ ''NOREG''"

definition collide_table :: string where
  "collide_table =
     table_header @ [CHR 0x0A] @ ''====='' @ [CHR 0x0A]
     @ row_gw1 @ [CHR 0x0A] @ row_gw2 @ [CHR 0x0A] @ ''====='' @ [CHR 0x0A] @ ''0 profiles 0 aliases''"

definition lonely_table :: string where
  "lonely_table =
     table_header @ [CHR 0x0A] @ ''====='' @ [CHR 0x0A]
     @ row_profile @ [CHR 0x0A] @ row_lonely @ [CHR 0x0A] @ ''====='' @ [CHR 0x0A] @ ''1 profile 0 aliases''"

definition collide_demo :: session where
  "collide_demo =
     \<lparr>mng = demo_manager\<lparr>api := (\<lambda>command. if command = ''sofia status'' then Inr collide_table
                                              else Inl (CLIError ''-ERR no reply''))\<rparr>,
      host = demo_host\<rparr>"

definition lonely_demo :: session where
  "lonely_demo =
     \<lparr>mng = demo_manager\<lparr>api := (\<lambda>command. if command = ''sofia status'' then Inr lonely_table
                                              else Inl (CLIError ''-ERR no reply''))\<rparr>,
      host = demo_host\<rparr>"

section \<open>Properties of the console client\<close>

lemma startswith_iff: "startswith s p \<longleftrightarrow> (\<exists>q. s = p @ q)"
proof
  assume "startswith s p"
  then have "s = p @ drop (length p) s"
    unfolding startswith_def by (metis append_take_drop_id)
  then show "\<exists>q. s = p @ q" ..
next
  assume "\<exists>q. s = p @ q"
  then show "startswith s p"
    unfolding startswith_def by auto
qed

lemma contains_iff: "contains sub s \<longleftrightarrow> (\<exists>p q. s = p @ sub @ q)"
proof (induction s)
  case Nil
  show ?case by auto
next
  case (Cons c cs)
  show ?case
  proof
    assume "contains sub (c # cs)"
    then consider "startswith (c # cs) sub" | "contains sub cs" by auto
    then show "\<exists>p q. c # cs = p @ sub @ q"
    proof cases
      case 1
      then obtain q where "c # cs = sub @ q" using startswith_iff by blast
      then have "c # cs = [] @ sub @ q" by simp
      then show ?thesis by blast
    next
      case 2
      then obtain p q where "cs = p @ sub @ q" using Cons.IH by blast
      then have "c # cs = (c # p) @ sub @ q" by simp
      then show ?thesis by blast
    qed
  next
    assume "\<exists>p q. c # cs = p @ sub @ q"
    then obtain p q where pq: "c # cs = p @ sub @ q" by blast
    show "contains sub (c # cs)"
    proof (cases p)
      case Nil
      with pq have "startswith (c # cs) sub" using startswith_iff by auto
      then show ?thesis by simp
    next
      case (Cons a p')
      with pq have "cs = p' @ sub @ q" by simp
      then have "contains sub cs" using Cons.IH by blast
      then show ?thesis by simp
    qed
  qed
qed

lemma splitlines_from_part:
  "l \<in> set (splitlines_from cur s) \<Longrightarrow> \<exists>p q. cur @ s = p @ l @ q"
proof (induction cur s rule: splitlines_from.induct)
  case (1 cur)
  then have "l = cur" by (auto split: if_splits)
  then have "cur @ [] = [] @ l @ []" by simp
  then show ?case by blast
next
  case (2 cur c cs)
  show ?case
  proof (cases "c = CHR 0x0D \<and> cs \<noteq> [] \<and> hd cs = CHR 0x0A")
    case True
    then have cs: "cs = CHR 0x0A # tl cs" by (cases cs) auto
    from True "2.prems" consider "l = cur" | "l \<in> set (splitlines_from [] (tl cs))" by auto
    then show ?thesis
    proof cases
      case 1
      then have "cur @ c # cs = [] @ l @ (c # cs)" by simp
      then show ?thesis by blast
    next
      case 2
      then obtain p q where "[] @ tl cs = p @ l @ q" using "2.IH"(1) True by blast
      then have "cur @ c # cs = (cur @ [c, CHR 0x0A] @ p) @ l @ q" using cs by simp
      then show ?thesis by blast
    qed
  next
    case False
    note nocrlf = this
    show ?thesis
    proof (cases "is_linebreak c")
      case True
      with nocrlf "2.prems" consider "l = cur" | "l \<in> set (splitlines_from [] cs)" by auto
      then show ?thesis
      proof cases
        case 1
        then have "cur @ c # cs = [] @ l @ (c # cs)" by simp
        then show ?thesis by blast
      next
        case 2
        then obtain p q where "[] @ cs = p @ l @ q" using "2.IH"(2) nocrlf True by blast
        then have "cur @ c # cs = (cur @ [c] @ p) @ l @ q" by simp
        then show ?thesis by blast
      qed
    next
      case False
      with nocrlf "2.prems" have "l \<in> set (splitlines_from (cur @ [c]) cs)" by auto
      then obtain p q where "(cur @ [c]) @ cs = p @ l @ q" using "2.IH"(3) nocrlf False by blast
      then have "cur @ c # cs = p @ l @ q" by simp
      then show ?thesis by blast
    qed
  qed
qed

lemma splitlines_part: "l \<in> set (splitlines s) \<Longrightarrow> \<exists>p q. s = p @ l @ q"
  using splitlines_from_part [of l "[]" s] by (simp add: splitlines_def)

lemma contains_line_part:
  assumes "l \<in> set (splitlines s)" and "l = a @ b"
  shows "contains b s"
proof -
  obtain p q where "s = p @ l @ q" using assms(1) splitlines_part by blast
  then have "s = (p @ a) @ b @ q" using assms(2) by simp
  then show ?thesis using contains_iff by blast
qed

lemma lower_char_idem: "lower_char (lower_char c) = lower_char c"
proof (cases c)
  case (Char b0 b1 b2 b3 b4 b5 b6 b7)
  show ?thesis
    unfolding Char lower_char_def Let_def
    by (cases b0; cases b1; cases b2; cases b3; cases b4; cases b5; cases b6; cases b7; simp)
qed

lemma lower_idem: "lower (lower s) = lower s"
  by (simp add: lower_def lower_char_idem)

lemma check_erroron_none:
  "\<forall>(name, func) \<in> set erroron. \<not> func out \<Longrightarrow> check_erroron erroron out = (False, map fst erroron)"
  by (induction erroron) auto

lemma check_erroron_fired:
  "fst (check_erroron erroron out) \<longleftrightarrow> (\<exists>(name, func) \<in> set erroron. func out)"
  by (induction erroron) (auto split: prod.splits)

lemma check_erroron_applied:
  "snd (check_erroron erroron out) =
     map fst (takeWhile (\<lambda>p. \<not> snd p out) erroron)
       @ map fst (take 1 (dropWhile (\<lambda>p. \<not> snd p out) erroron))"
proof (induction erroron)
  case Nil
  show ?case by simp
next
  case (Cons p ps)
  obtain name func where p: "p = (name, func)" by (cases p)
  show ?case
  proof (cases "func out")
    case True
    then show ?thesis using p by simp
  next
    case False
    then show ?thesis using p Cons.IH
      by (cases "check_erroron ps out") simp
  qed
qed

text \<open>
  Claim C5. When the command ran and the last line of its trimmed output starts with
  \<^verbatim>\<open>-ERR\<close>, the call fails with \<open>CLIError\<close> (the specification's CommandError) carrying
  the whole trimmed output; when that last line is \<^verbatim>\<open>-ERR no such channel\<close>, the
  error's message contains \<^verbatim>\<open>no such channel\<close>. A call that returns returns the trimmed
  output, and it does return when the last line does not start with \<^verbatim>\<open>-ERR\<close> and
  no predicate holds.
\<close>

theorem cli_call_ERR_marker:
  assumes "ssh self (bound_cli self @ [str_join '' '' tokens]) = Stdout raw"
  shows "(splitlines (strip raw) \<noteq> [] \<and> startswith (last (splitlines (strip raw))) ''-ERR''
            \<longrightarrow> fst (cli_call self tokens erroron) = Inl (CLIError (strip raw)))
       \<and> (splitlines (strip raw) \<noteq> [] \<and> last (splitlines (strip raw)) = ''-ERR no such channel''
            \<longrightarrow> fst (cli_call self tokens erroron) = Inl (CLIError (strip raw))
                \<and> contains ''no such channel'' (strip raw))
       \<and> (\<forall>out. fst (cli_call self tokens erroron) = Inr out \<longrightarrow> out = strip raw)
       \<and> (\<not> (splitlines (strip raw) \<noteq> [] \<and> startswith (last (splitlines (strip raw))) ''-ERR'')
            \<and> (\<forall>(name, func) \<in> set erroron. \<not> func (strip raw))
            \<longrightarrow> fst (cli_call self tokens erroron) = Inr (strip raw))"
proof (intro conjI impI allI)
  assume "splitlines (strip raw) \<noteq> [] \<and> startswith (last (splitlines (strip raw))) ''-ERR''"
  then show "fst (cli_call self tokens erroron) = Inl (CLIError (strip raw))"
    using assms by (simp add: cli_call_def Let_def)
next
  assume a: "splitlines (strip raw) \<noteq> [] \<and> last (splitlines (strip raw)) = ''-ERR no such channel''"
  then have "startswith (last (splitlines (strip raw))) ''-ERR''"
    by (simp add: startswith_def)
  with a show "fst (cli_call self tokens erroron) = Inl (CLIError (strip raw))"
    using assms by (simp add: cli_call_def Let_def)
next
  assume a: "splitlines (strip raw) \<noteq> [] \<and> last (splitlines (strip raw)) = ''-ERR no such channel''"
  then have "''-ERR no such channel'' \<in> set (splitlines (strip raw))"
    using last_in_set by metis
  moreover have "''-ERR no such channel'' = ''-ERR '' @ ''no such channel''" by simp
  ultimately show "contains ''no such channel'' (strip raw)"
    by (rule contains_line_part)
next
  fix out
  assume "fst (cli_call self tokens erroron) = Inr out"
  then show "out = strip raw"
    using assms by (auto simp: cli_call_def Let_def split: if_splits prod.splits bool.splits)
next
  assume a: "\<not> (splitlines (strip raw) \<noteq> [] \<and> startswith (last (splitlines (strip raw))) ''-ERR'')
            \<and> (\<forall>(name, func) \<in> set erroron. \<not> func (strip raw))"
  then have "check_erroron erroron (strip raw) = (False, map fst erroron)"
    using check_erroron_none by blast
  with a show "fst (cli_call self tokens erroron) = Inr (strip raw)"
    using assms by (auto simp: cli_call_def Let_def)
qed

lemma demo_cli_kill:
  "ssh demo_cli (bound_cli demo_cli @ [str_join '' '' [''uuid_kill'', ''1234'']])
     = Stdout (''killing 1234'' @ [CHR 0x0A] @ ''-ERR no such channel'' @ [CHR 0x0A])"
  by (simp add: demo_cli_def cli_init_def get_cli_def demo_session_def)

lemma demo_cli_status:
  "ssh demo_cli (bound_cli demo_cli @ [str_join '' '' [''status'']]) = Stdout ('' UP '' @ [CHR 0x0A])"
  by (simp add: demo_cli_def cli_init_def get_cli_def demo_session_def)

lemma demo_cli_show:
  "ssh demo_cli (bound_cli demo_cli @ [str_join '' '' [''show'', ''calls'']])
     = Stdout ([CHR 0x0A] @ ''0 total.'' @ [CHR 0x0A])"
  by (simp add: demo_cli_def cli_init_def get_cli_def demo_session_def)

lemma demo_kill_strip:
  "strip (''killing 1234'' @ [CHR 0x0A] @ ''-ERR no such channel'' @ [CHR 0x0A])
     = ''killing 1234'' @ [CHR 0x0A] @ ''-ERR no such channel''"
  by (simp add: strip_def isspace_def)

lemma demo_kill_lines:
  "splitlines (''killing 1234'' @ [CHR 0x0A] @ ''-ERR no such channel'')
     = [''killing 1234'', ''-ERR no such channel'']"
  by (simp add: splitlines_def is_linebreak_def)

lemma demo_status_strip: "strip ('' UP '' @ [CHR 0x0A]) = ''UP''"
  by (simp add: strip_def isspace_def)

lemma demo_status_lines: "splitlines ''UP'' = [''UP'']"
  by (simp add: splitlines_def is_linebreak_def)

lemma demo_show_strip: "strip ([CHR 0x0A] @ ''0 total.'' @ [CHR 0x0A]) = ''0 total.''"
  by (simp add: strip_def isspace_def)

lemma demo_show_lines: "splitlines ''0 total.'' = [''0 total.'']"
  by (simp add: splitlines_def is_linebreak_def)

theorem cli_call_ERR_marker_witness:
  "fst (cli_call demo_cli [''uuid_kill'', ''1234''] [])
     = Inl (CLIError (''killing 1234'' @ [CHR 0x0A] @ ''-ERR no such channel''))
   \<and> contains ''no such channel'' (''killing 1234'' @ [CHR 0x0A] @ ''-ERR no such channel'')
   \<and> fst (cli_call demo_cli [''status''] [(''empty'', \<lambda>out. out = [])]) = Inr ''UP''"
proof -
  note kill = cli_call_ERR_marker [OF demo_cli_kill, of "[]",
      unfolded demo_kill_strip demo_kill_lines]
  have h1: "[''killing 1234'', ''-ERR no such channel''] \<noteq> []
      \<and> last [''killing 1234'', ''-ERR no such channel''] = ''-ERR no such channel''"
    by simp
  note k = kill [THEN conjunct2, THEN conjunct1, rule_format, OF h1]
  note status = cli_call_ERR_marker [OF demo_cli_status, of "[(''empty'', \<lambda>out. out = [])]",
      unfolded demo_status_strip demo_status_lines]
  have h2: "\<not> ([''UP''] \<noteq> [] \<and> startswith (last [''UP'']) ''-ERR'')
      \<and> (\<forall>(name, func) \<in> set [(''empty'', \<lambda>out. out = [])]. \<not> func ''UP'')"
    by (simp add: startswith_def)
  note s = status [THEN conjunct2, THEN conjunct2, THEN conjunct2, rule_format, OF h2]
  from k s show ?thesis by blast
qed

text \<open>
  Claim C9. When the command ran and the last line of its trimmed output starts with
  \<^verbatim>\<open>-ERR\<close>, the call fails with \<open>CLIError\<close> and has applied no predicate: the
  predicates are applied only when that check did not fire, in order and up to the first
  that holds. When a predicate holds of the trimmed output, the call fails with
  \<open>CLIError\<close> carrying that output.
\<close>

theorem cli_call_ERR_before_erroron:
  assumes "ssh self (bound_cli self @ [str_join '' '' tokens]) = Stdout raw"
  shows "(splitlines (strip raw) \<noteq> [] \<and> startswith (last (splitlines (strip raw))) ''-ERR''
            \<longrightarrow> cli_call self tokens erroron = (Inl (CLIError (strip raw)), []))
       \<and> (snd (cli_call self tokens erroron) \<noteq> []
            \<longrightarrow> \<not> (splitlines (strip raw) \<noteq> [] \<and> startswith (last (splitlines (strip raw))) ''-ERR''))
       \<and> (\<not> (splitlines (strip raw) \<noteq> [] \<and> startswith (last (splitlines (strip raw))) ''-ERR'')
            \<longrightarrow> snd (cli_call self tokens erroron)
                  = map fst (takeWhile (\<lambda>p. \<not> snd p (strip raw)) erroron)
                    @ map fst (take 1 (dropWhile (\<lambda>p. \<not> snd p (strip raw)) erroron)))
       \<and> ((\<exists>(name, func) \<in> set erroron. func (strip raw))
            \<longrightarrow> fst (cli_call self tokens erroron) = Inl (CLIError (strip raw)))"
proof (intro conjI impI)
  assume "splitlines (strip raw) \<noteq> [] \<and> startswith (last (splitlines (strip raw))) ''-ERR''"
  then show "cli_call self tokens erroron = (Inl (CLIError (strip raw)), [])"
    using assms by (simp add: cli_call_def Let_def)
next
  assume "snd (cli_call self tokens erroron) \<noteq> []"
  then show "\<not> (splitlines (strip raw) \<noteq> [] \<and> startswith (last (splitlines (strip raw))) ''-ERR'')"
    using assms by (auto simp: cli_call_def Let_def)
next
  assume a: "\<not> (splitlines (strip raw) \<noteq> [] \<and> startswith (last (splitlines (strip raw))) ''-ERR'')"
  have "snd (cli_call self tokens erroron) = snd (check_erroron erroron (strip raw))"
    using assms a by (auto simp: cli_call_def Let_def split: prod.splits bool.splits)
  then show "snd (cli_call self tokens erroron)
      = map fst (takeWhile (\<lambda>p. \<not> snd p (strip raw)) erroron)
        @ map fst (take 1 (dropWhile (\<lambda>p. \<not> snd p (strip raw)) erroron))"
    by (simp only: check_erroron_applied)
next
  assume "\<exists>(name, func) \<in> set erroron. func (strip raw)"
  then have "fst (check_erroron erroron (strip raw))"
    using check_erroron_fired by blast
  then show "fst (cli_call self tokens erroron) = Inl (CLIError (strip raw))"
    using assms by (auto simp: cli_call_def Let_def split: prod.splits bool.splits)
qed

theorem cli_call_ERR_before_erroron_witness:
  "cli_call demo_cli [''uuid_kill'', ''1234''] [(''always'', \<lambda>out. True)]
     = (Inl (CLIError (''killing 1234'' @ [CHR 0x0A] @ ''-ERR no such channel'')), [])
   \<and> fst (cli_call demo_cli [''show'', ''calls'']
        [(''empty'', \<lambda>out. out = []), (''nocalls'', \<lambda>out. startswith out ''0 total''),
         (''always'', \<lambda>out. True)])
     = Inl (CLIError ''0 total.'')
   \<and> snd (cli_call demo_cli [''show'', ''calls'']
        [(''empty'', \<lambda>out. out = []), (''nocalls'', \<lambda>out. startswith out ''0 total''),
         (''always'', \<lambda>out. True)])
     = [''empty'', ''nocalls'']"
proof -
  note kill = cli_call_ERR_before_erroron [OF demo_cli_kill, of "[(''always'', \<lambda>out. True)]",
      unfolded demo_kill_strip demo_kill_lines]
  have h1: "[''killing 1234'', ''-ERR no such channel''] \<noteq> []
      \<and> startswith (last [''killing 1234'', ''-ERR no such channel'']) ''-ERR''"
    by (simp add: startswith_def)
  note k = kill [THEN conjunct1, rule_format, OF h1]
  let ?preds = "[(''empty'', \<lambda>out. out = []), (''nocalls'', \<lambda>out. startswith out ''0 total''),
         (''always'', \<lambda>out::string. True)]"
  note show_calls = cli_call_ERR_before_erroron [OF demo_cli_show, of ?preds,
      unfolded demo_show_strip demo_show_lines]
  have h2: "\<not> ([''0 total.''] \<noteq> [] \<and> startswith (last [''0 total.'']) ''-ERR'')"
    by (simp add: startswith_def)
  have h3: "\<exists>(name, func) \<in> set ?preds. func ''0 total.''"
    by (simp add: startswith_def)
  have applied: "map fst (takeWhile (\<lambda>p. \<not> snd p ''0 total.'') ?preds)
      @ map fst (take 1 (dropWhile (\<lambda>p. \<not> snd p ''0 total.'') ?preds)) = [''empty'', ''nocalls'']"
    by (simp add: startswith_def)
  note s1 = show_calls [THEN conjunct2, THEN conjunct2, THEN conjunct1, rule_format, OF h2,
      unfolded applied]
  note s2 = show_calls [THEN conjunct2, THEN conjunct2, THEN conjunct2, rule_format, OF h3]
  from k s1 s2 show ?thesis by blast
qed

section \<open>Properties of revert and commit\<close>

lemma emit_simps [simp]:
  "files (emit e w) = files w" "writable (emit e w) = writable w"
  "trace (emit e w) = trace w @ [e]" "wallclock (emit e w) = wallclock w"
  "ticks (emit e w) = ticks w"
  by (simp_all add: emit_def)

text \<open>
  Claim C8. \<open>revert\<close> is the restore of the manager's file, after one log message that
  names the path, and the manager is the same afterwards: its tree, with every element,
  attribute and text, is untouched, also when the restore has put other bytes at the path.
\<close>

theorem revert_keeps_tree:
  "mng (snd (revert s)) = mng s
   \<and> etree (mng (snd (revert s))) = etree (mng s)
   \<and> (fst (revert s), host (snd (revert s)))
       = restore (rfile (mng s)) (emit (LogDebug (''restoring '' @ quoted (path (rfile (mng s))))) (host s))
   \<and> (if writable (host s) (path (rfile (mng s)))
      then fst (revert s) = Inr ()
           \<and> files (host (snd (revert s))) = (files (host s))(path (rfile (mng s)) \<mapsto> snapshot (rfile (mng s)))
      else fst (revert s) = Inl (IOError (path (rfile (mng s))))
           \<and> files (host (snd (revert s))) = files (host s))"
  by (simp add: revert_def Let_def restore_def sftp_write_def split: prod.splits)

text \<open>
  Claim C1, as the code has it. For every manager and tree: when the upload and the
  reload succeed, \<open>commit\<close> returns with the manager unchanged; the calls it made are, in
  this order, the log message, the upload of the pretty-printed serialization of the tree
  to the managed path, the console's \<^verbatim>\<open>reloadxml\<close>, and the message with the elapsed
  seconds; the file at the path holds exactly that serialization; and the elapsed seconds
  reported are the reading of the clock after the reload minus the reading before the
  upload. When the upload fails, the call fails before any reload is asked for and the
  files are as they were; when the reload fails, the file is already committed.
\<close>

theorem commit_uploads_then_reloads:
  fixes s :: session and pf :: platform
  defines "p \<equiv> path (rfile (mng s))"
    and "bytes \<equiv> tostring pf True (etree (mng s))"
    and "t0 \<equiv> wallclock (host s) (ticks (host s))"
    and "t1 \<equiv> wallclock (host s) (Suc (ticks (host s)))"
  shows "(writable (host s) p \<and> api (mng s) ''reloadxml'' = Inr out \<longrightarrow>
           (\<exists>s'. commit pf s = (Inr (), s')
              \<and> mng s' = mng s
              \<and> files (host s') = (files (host s))(p \<mapsto> bytes)
              \<and> trace (host s') = trace (host s) @
                   [LogInfo (''saving '' @ quoted p), Putfo p bytes, Api ''reloadxml'',
                    LogSeconds ''freeswitch.xml commit'' (t1 - t0)]))
       \<and> (\<not> writable (host s) p \<longrightarrow>
           (\<exists>s'. commit pf s = (Inl (IOError p), s')
              \<and> mng s' = mng s
              \<and> files (host s') = files (host s)
              \<and> trace (host s') = trace (host s) @ [LogInfo (''saving '' @ quoted p), Putfo p bytes]))
       \<and> (writable (host s) p \<and> api (mng s) ''reloadxml'' = Inl e \<longrightarrow>
           (\<exists>s'. commit pf s = (Inl e, s')
              \<and> mng s' = mng s
              \<and> files (host s') = (files (host s))(p \<mapsto> bytes)
              \<and> trace (host s') = trace (host s) @
                   [LogInfo (''saving '' @ quoted p), Putfo p bytes, Api ''reloadxml'']))"
  unfolding p_def bytes_def t0_def t1_def
  by (simp add: commit_def time_time_def sftp_putfo_def fscli_api_def Let_def)

lemma ex_pairD: "\<exists>s'. x = (r, s') \<and> Q s' \<Longrightarrow> fst x = r \<and> Q (snd x)"
  by auto

theorem commit_uploads_then_reloads_witness:
  "fst (commit demo_platform demo) = Inr ()
   \<and> mng (snd (commit demo_platform demo)) = demo_manager
   \<and> files (host (snd (commit demo_platform demo))) ''/etc/freeswitch/freeswitch.xml''
       = Some (''<document>'' @ [CHR 0x0A])
   \<and> trace (host (snd (commit demo_platform demo))) =
        [LogInfo (''saving '' @ quoted ''/etc/freeswitch/freeswitch.xml''),
         Putfo ''/etc/freeswitch/freeswitch.xml'' (''<document>'' @ [CHR 0x0A]),
         Api ''reloadxml'', LogSeconds ''freeswitch.xml commit'' (1 / 2)]"
proof -
  have p: "path (rfile (mng demo)) = ''/etc/freeswitch/freeswitch.xml''"
    by (simp add: demo_def demo_manager_def ConfigManager_def)
  have b: "tostring demo_platform True (etree (mng demo)) = ''<document>'' @ [CHR 0x0A]"
    by (simp add: demo_def demo_manager_def ConfigManager_def demo_platform_def demo_tree_def)
  have h: "writable (host demo) (path (rfile (mng demo)))
      \<and> api (mng demo) ''reloadxml'' = Inr ''+OK [Success]''"
    by (simp add: demo_def demo_manager_def ConfigManager_def demo_host_def)
  have m: "mng demo = demo_manager" and tr: "trace (host demo) = []"
    and t: "wallclock (host demo) (Suc (ticks (host demo))) - wallclock (host demo) (ticks (host demo)) = 1 / 2"
    by (simp_all add: demo_def demo_host_def)
  note c = commit_uploads_then_reloads [of demo "''+OK [Success]''" demo_platform,
      THEN conjunct1, rule_format, OF h, THEN ex_pairD, unfolded p b t tr]
  note c1 = c [THEN conjunct1]
  note c2 = trans [OF c [THEN conjunct2, THEN conjunct1] m]
  note c3 = c [THEN conjunct2, THEN conjunct2, THEN conjunct1]
  note c4 = c [THEN conjunct2, THEN conjunct2, THEN conjunct2]
  have f: "files (host (snd (commit demo_platform demo))) ''/etc/freeswitch/freeswitch.xml''
       = Some (''<document>'' @ [CHR 0x0A])"
    by (subst c3) (rule fun_upd_same)
  have g: "trace (host (snd (commit demo_platform demo))) =
        [LogInfo (''saving '' @ quoted ''/etc/freeswitch/freeswitch.xml''),
         Putfo ''/etc/freeswitch/freeswitch.xml'' (''<document>'' @ [CHR 0x0A]),
         Api ''reloadxml'', LogSeconds ''freeswitch.xml commit'' (1 / 2)]"
    by (subst c4) (rule append_Nil)
  show ?thesis
    by (rule conjI [OF c1 conjI [OF c2 conjI [OF f g]]])
qed

text \<open>
  The elapsed seconds that \<open>commit\<close> reports can be negative: on a host whose clock is set
  back by a second between the two readings, the upload and the reload succeed and the
  message gives \<open>-1\<close> seconds.
\<close>

theorem commit_reports_negative_seconds:
  "fst (commit demo_platform set_back_demo) = Inr ()
   \<and> trace (host (snd (commit demo_platform set_back_demo))) =
        [LogInfo (''saving '' @ quoted ''/etc/freeswitch/freeswitch.xml''),
         Putfo ''/etc/freeswitch/freeswitch.xml'' (''<document>'' @ [CHR 0x0A]),
         Api ''reloadxml'', LogSeconds ''freeswitch.xml commit'' (- 1)]"
  by (simp add: commit_def time_time_def sftp_putfo_def fscli_api_def Let_def set_back_demo_def
        demo_manager_def ConfigManager_def demo_host_def demo_platform_def demo_tree_def)

theorem revert_keeps_tree_witness:
  "etree (mng (snd (revert demo))) = demo_tree
   \<and> fst (revert demo) = Inr ()
   \<and> files (host (snd (revert demo))) ''/etc/freeswitch/freeswitch.xml'' = Some ''<old/>''"
proof -
  have m: "etree (mng demo) = demo_tree"
    by (simp add: demo_def demo_manager_def ConfigManager_def)
  have w: "writable (host demo) (path (rfile (mng demo)))"
    by (simp add: demo_def demo_host_def)
  have f: "((files (host demo))(path (rfile (mng demo)) \<mapsto> snapshot (rfile (mng demo))))
             ''/etc/freeswitch/freeswitch.xml'' = Some ''<old/>''"
    by (simp add: demo_def demo_manager_def ConfigManager_def)
  note r = revert_keeps_tree [of demo]
  from r have "etree (mng (snd (revert demo))) = etree (mng demo)" by blast
  moreover from r w have "fst (revert demo) = Inr ()
      \<and> files (host (snd (revert demo))) = (files (host demo))(path (rfile (mng demo)) \<mapsto> snapshot (rfile (mng demo)))"
    by (simp only: if_True)
  ultimately show ?thesis using m f by simp
qed

section \<open>Properties of get\_users\<close>

subsection \<open>The filter keys\<close>

lemma list_users_args_bad:
  "\<exists>k \<in> set (map fst kwargs). k \<notin> set allowed \<Longrightarrow>
   \<exists>argname. argname \<in> set (map fst kwargs) \<and> argname \<notin> set allowed
     \<and> list_users_args kwargs args
         = Inl (ValueError (argname @ '' is not a valid argument to list_users''))"
proof (induction kwargs arbitrary: args)
  case Nil
  then show ?case by simp
next
  case (Cons kv kwargs)
  obtain k v where kv: "kv = (k, v)" by (cases kv)
  show ?case
  proof (cases "k \<in> set allowed")
    case False
    then show ?thesis using kv by auto
  next
    case True
    with Cons.prems kv have "\<exists>k \<in> set (map fst kwargs). k \<notin> set allowed" by auto
    from Cons.IH [OF this, of "args @ [k @ '' '' @ v]"] show ?thesis using kv True by auto
  qed
qed

lemma list_users_args_ok:
  "list_all (\<lambda>kv. fst kv \<in> set allowed) kwargs \<Longrightarrow>
   list_users_args kwargs args = Inr (args @ map (\<lambda>(k, v). k @ '' '' @ v) kwargs)"
  by (induction kwargs arbitrary: args) auto

text \<open>
  Claim C4. When some keyword of the call is not among domain, group, user and context,
  \<open>get_users\<close> fails with \<open>ValueError\<close> (the specification's ArgumentError), whose message
  names such a keyword, and the session is the one it was called in: no console command
  was run, and the remote host and the manager are untouched.
\<close>

theorem get_users_rejects_filter:
  assumes "\<exists>k \<in> set (map fst kwargs). k \<notin> set allowed"
  shows "\<exists>argname. argname \<in> set (map fst kwargs) \<and> argname \<notin> set allowed
     \<and> get_users s kwargs
         = (Inl (ValueError (argname @ '' is not a valid argument to list_users'')), s)"
proof -
  from list_users_args_bad [OF assms, of "[]"] obtain argname where
    a: "argname \<in> set (map fst kwargs)" "argname \<notin> set allowed"
       "list_users_args kwargs [] = Inl (ValueError (argname @ '' is not a valid argument to list_users''))"
    by blast
  from a(3) have "get_users s kwargs
      = (Inl (ValueError (argname @ '' is not a valid argument to list_users'')), s)"
    by (simp add: get_users_def)
  with a(1,2) show ?thesis by blast
qed

subsection \<open>Packing the rows\<close>















lemma namedtuple_name_by_name:
  "namedtuple ''UserEntry'' [''userid'', ''async'', ''domain'']
     = Inl (ValueError (''Type names and field names cannot be a keyword: '' @ [CHR 0x27] @ ''async'' @ [CHR 0x27]))"
  "namedtuple ''UserEntry'' [''class'', ''1a'']
     = Inl (ValueError (''Type names and field names cannot be a keyword: '' @ [CHR 0x27] @ ''class'' @ [CHR 0x27]))"
  "namedtuple ''UserEntry'' [''_id'', ''1a'']
     = Inl (ValueError (''Type names and field names must be valid identifiers: '' @ [CHR 0x27] @ ''1a'' @ [CHR 0x27]))"
  "namedtuple ''UserEntry'' [''id'', ''id'', ''_x'']
     = Inl (ValueError (''Encountered duplicate field name: '' @ [CHR 0x27] @ ''id'' @ [CHR 0x27]))"
  "namedtuple ''UserEntry'' [''id'', [CHR 0xE9, CHR ''t'', CHR 0xE9]] = Inr [''id'', [CHR 0xE9, CHR ''t'', CHR 0xE9]]"
  by (simp_all add: namedtuple_def isidentifier_def xid_start_def xid_continue_def kwlist_def
        startswith_def repr_def repr_char_def isprintable_def Let_def)












theorem get_users_rejects_filter_witness:
  "get_users users_demo [(''domain'', ''example.com''), (''password'', ''x'')]
     = (Inl (ValueError ''password is not a valid argument to list_users''), users_demo)"
proof -
  let ?kw = "[(''domain'', ''example.com''), (''password'', ''x'')]"
  have h: "\<exists>k \<in> set (map fst ?kw). k \<notin> set allowed"
    by (simp add: allowed_def)
  from get_users_rejects_filter [OF h, of users_demo] obtain a where
    a: "a \<in> set (map fst ?kw)" "a \<notin> set allowed"
       "get_users users_demo ?kw = (Inl (ValueError (a @ '' is not a valid argument to list_users'')), users_demo)"
    by (elim exE conjE) (rule that)
  from a(1) a(2) have "a = ''password''"
    by (auto simp: allowed_def)
  with a(3) show ?thesis by simp
qed

section \<open>Properties of manage\_config\<close>

subsection \<open>Normalization\<close>

lemma iter_normalize:
  "iter (normalize_text sep e)
     = map (\<lambda>x. Element (tag x) (attrib x) (map_option (nonblank_lines sep) (elem_text x))
                   (map (normalize_text sep) (children x)) None) (iter e)"
proof (induction e)
  case (Element t a tx cs tail)
  have "map (\<lambda>c. iter (normalize_text sep c)) cs
      = map (\<lambda>c. map (\<lambda>x. Element (tag x) (attrib x) (map_option (nonblank_lines sep) (elem_text x))
                   (map (normalize_text sep) (children x)) None) (iter c)) cs"
    by (rule map_cong [OF refl]) (rule Element.IH)
  then show ?case by (simp add: map_concat comp_def del: map_eq_conv)
qed

text \<open>
  Claim C6. When the root file is read and parsed and the parsed tree has the sofia
  configuration section, \<open>manage_config\<close> returns a manager of that tree: the files of
  the host are exactly as before, so the file at the canonical path is untouched and no
  backup exists that did not; and the calls made are the download and one log message,
  with no rename and no write of the root file.
\<close>

theorem manage_config_keeps_aggregate:
  assumes "files w (os_path_join rootpath ''freeswitch.xml'') = Some src"
    and "fromstring pf src = Inr parsed"
    and "xpath_sofia_conf parsed \<noteq> []"
  shows "\<exists>m w'. manage_config pf rootpath console console_api w = (Inr m, w')
      \<and> etree m = parsed
      \<and> rfile m = \<lparr>path = os_path_join rootpath ''freeswitch.xml'', snapshot = src\<rparr>
      \<and> files w' = files w
      \<and> trace w' = trace w @
           [Getfo (os_path_join rootpath ''freeswitch.xml''),
            LogSeconds (''Parsing '' @ os_path_join rootpath ''freeswitch.xml'' @ '' into an etree'')
              (wallclock w (Suc (ticks w)) - wallclock w (ticks w))]"
  using assms
  by (simp add: manage_config_def Let_def time_time_def sftp_getfo_def RestoreFile_def
      ConfigManager_def)

text \<open>
  Claim C7, as the code has it. The normalized tree has the elements of the merged view,
  in the same order and with the same tags, attributes and numbers of children; every
  element's tail is gone, whether it was blank or not; an element with a text has instead
  the text's lines that are not blank, joined by the line separator, and an element without
  text has none. When the root file has no sofia section and the steps of the aggregation
  succeed, it is this normalized tree that the manager holds and that is written, pretty
  printed, to the canonical path, the old file being kept under the backup's name.
\<close>

theorem normalize_text_effect:
  "map elem_tail (iter (normalize_text sep e)) = replicate (length (iter e)) None
   \<and> map elem_text (iter (normalize_text sep e))
       = map (\<lambda>x. map_option (nonblank_lines sep) (elem_text x)) (iter e)
   \<and> map tag (iter (normalize_text sep e)) = map tag (iter e)
   \<and> map attrib (iter (normalize_text sep e)) = map attrib (iter e)
   \<and> map (\<lambda>x. length (children x)) (iter (normalize_text sep e))
       = map (\<lambda>x. length (children x)) (iter e)
   \<and> (files w (os_path_join rootpath ''freeswitch.xml'') = Some src
        \<and> fromstring pf src = Inr parsed \<and> xpath_sofia_conf parsed = []
        \<and> console_api ''xml_locate root'' = Inr out \<and> fromstring pf out = Inr e
        \<and> backup = os_path_join rootpath ''freeswitch.xml''
                     @ strftime pf ''_backup_%Y-%m-%d-%H-%M-%S'' (wallclock w (Suc (Suc (ticks w))))
        \<and> files w backup = None \<and> writable w backup
        \<and> writable w (os_path_join rootpath ''freeswitch.xml'')
        \<longrightarrow> (\<exists>m w'. manage_config pf rootpath console console_api w = (Inr m, w')
               \<and> etree m = normalize_text (linesep pf) e
               \<and> files w' (os_path_join rootpath ''freeswitch.xml'')
                    = Some (tostring pf True (normalize_text (linesep pf) e))
               \<and> files w' backup = Some src))"
proof (intro conjI impI)
  show "map elem_tail (iter (normalize_text sep e)) = replicate (length (iter e)) None"
    by (simp add: iter_normalize comp_def map_replicate_const)
  show "map elem_text (iter (normalize_text sep e))
       = map (\<lambda>x. map_option (nonblank_lines sep) (elem_text x)) (iter e)"
    by (simp add: iter_normalize comp_def)
  show "map tag (iter (normalize_text sep e)) = map tag (iter e)"
    by (simp add: iter_normalize comp_def)
  show "map attrib (iter (normalize_text sep e)) = map attrib (iter e)"
    by (simp add: iter_normalize comp_def)
  show "map (\<lambda>x. length (children x)) (iter (normalize_text sep e))
       = map (\<lambda>x. length (children x)) (iter e)"
    by (simp add: iter_normalize comp_def)
next
  let ?conf = "os_path_join rootpath ''freeswitch.xml''"
  assume a: "files w ?conf = Some src
        \<and> fromstring pf src = Inr parsed \<and> xpath_sofia_conf parsed = []
        \<and> console_api ''xml_locate root'' = Inr out \<and> fromstring pf out = Inr e
        \<and> backup = ?conf @ strftime pf ''_backup_%Y-%m-%d-%H-%M-%S'' (wallclock w (Suc (Suc (ticks w))))
        \<and> files w backup = None \<and> writable w backup \<and> writable w ?conf"
  then have ne: "backup \<noteq> ?conf" by auto
  from a have b: "?conf @ strftime pf ''_backup_%Y-%m-%d-%H-%M-%S'' (wallclock w (Suc (Suc (ticks w)))) = backup"
    by simp
  have dump: "\<exists>w'. dump_aggregate pf ?conf console_api
        (emit (LogSeconds (''Parsing '' @ ?conf @ '' into an etree'')
                 (wallclock w (Suc (ticks w)) - wallclock w (ticks w)))
           (emit (Getfo ?conf) (w\<lparr>ticks := Suc (ticks w)\<rparr>)\<lparr>ticks := Suc (Suc (ticks w))\<rparr>))
      = (Inr (normalize_text (linesep pf) e), w')
      \<and> files w' = (files w)(?conf := None, backup \<mapsto> src, ?conf \<mapsto> tostring pf True (normalize_text (linesep pf) e))"
    using a ne
    by (simp add: dump_aggregate_def Let_def time_time_def emit_def b sftp_rename_def sftp_write_def)
  then obtain w' where w': "dump_aggregate pf ?conf console_api
        (emit (LogSeconds (''Parsing '' @ ?conf @ '' into an etree'')
                 (wallclock w (Suc (ticks w)) - wallclock w (ticks w)))
           (emit (Getfo ?conf) (w\<lparr>ticks := Suc (ticks w)\<rparr>)\<lparr>ticks := Suc (Suc (ticks w))\<rparr>))
      = (Inr (normalize_text (linesep pf) e), w')"
    "files w' = (files w)(?conf := None, backup \<mapsto> src, ?conf \<mapsto> tostring pf True (normalize_text (linesep pf) e))"
    by blast
  have "manage_config pf rootpath console console_api w
      = (Inr (ConfigManager \<lparr>path = ?conf, snapshot = tostring pf True (normalize_text (linesep pf) e)\<rparr>
                (normalize_text (linesep pf) e) console console_api), w')"
    using a w'
    by (simp add: manage_config_def Let_def time_time_def sftp_getfo_def RestoreFile_def)
  moreover have "files w' ?conf = Some (tostring pf True (normalize_text (linesep pf) e))"
    using w'(2) by simp
  moreover have "files w' backup = Some src"
    using w'(2) ne by simp
  ultimately show "\<exists>m w'. manage_config pf rootpath console console_api w = (Inr m, w')
               \<and> etree m = normalize_text (linesep pf) e
               \<and> files w' ?conf = Some (tostring pf True (normalize_text (linesep pf) e))
               \<and> files w' backup = Some src"
    by (simp add: ConfigManager_def)
qed

lemma demo_confpath: "os_path_join ''/etc/freeswitch'' ''freeswitch.xml'' = ''/etc/freeswitch/freeswitch.xml''"
  by (simp add: os_path_join_def startswith_def)

lemma merged_normalized:
  "normalize_text [CHR 0x0A] merged_tree =
     Element ''document'' [(''type'', ''freeswitch/xml'')] (Some '''')
       [Element ''section'' [(''name'', ''configuration'')] (Some ('' a '' @ [CHR 0x0A] @ ''b'')) [] None]
       None"
  by (simp add: merged_tree_def nonblank_lines_def splitlines_def is_linebreak_def strip_def
      isspace_def)

theorem manage_config_keeps_aggregate_witness:
  "\<exists>m w'. manage_config agg_platform ''/etc/freeswitch'' demo_cli agg_api aggregate_host = (Inr m, w')
      \<and> etree m = aggregate_tree
      \<and> files w' = files aggregate_host
      \<and> trace w' =
           [Getfo ''/etc/freeswitch/freeswitch.xml'',
            LogSeconds (''Parsing '' @ ''/etc/freeswitch/freeswitch.xml'' @ '' into an etree'') (1 / 2)]"
proof -
  have h1: "files aggregate_host (os_path_join ''/etc/freeswitch'' ''freeswitch.xml'') = Some ''<aggregate/>''"
    unfolding demo_confpath by (simp add: aggregate_host_def)
  have h2: "fromstring agg_platform ''<aggregate/>'' = Inr aggregate_tree"
    by (simp add: agg_platform_def)
  have h3: "xpath_sofia_conf aggregate_tree \<noteq> []"
    by (simp add: xpath_sofia_conf_def aggregate_tree_def)
  have tr: "trace aggregate_host = []"
    and t: "wallclock aggregate_host (Suc (ticks aggregate_host)) - wallclock aggregate_host (ticks aggregate_host) = 1 / 2"
    by (simp_all add: aggregate_host_def demo_host_def)
  note c = manage_config_keeps_aggregate [OF h1 h2 h3, of demo_cli agg_api,
      unfolded demo_confpath tr t append_Nil]
  from c obtain m w' where
    "manage_config agg_platform ''/etc/freeswitch'' demo_cli agg_api aggregate_host = (Inr m, w')"
    "etree m = aggregate_tree" "files w' = files aggregate_host"
    "trace w' =
           [Getfo ''/etc/freeswitch/freeswitch.xml'',
            LogSeconds (''Parsing '' @ ''/etc/freeswitch/freeswitch.xml'' @ '' into an etree'') (1 / 2)]"
    by (elim exE conjE) (rule that)
  then show ?thesis
    by (intro exI conjI)
qed

theorem normalize_text_drops_text_tail:
  "elem_tail (hd (children merged_tree)) = Some ''and tail''
   \<and> strip ''and tail'' = ''and tail''
   \<and> elem_tail (hd (children (normalize_text [CHR 0x0A] merged_tree))) = None"
  unfolding merged_normalized
  by (simp add: merged_tree_def strip_def isspace_def)

theorem normalize_text_effect_witness:
  "\<exists>m w'. manage_config agg_platform ''/etc/freeswitch'' demo_cli agg_api demo_host = (Inr m, w')
      \<and> etree m =
           Element ''document'' [(''type'', ''freeswitch/xml'')] (Some '''')
             [Element ''section'' [(''name'', ''configuration'')] (Some ('' a '' @ [CHR 0x0A] @ ''b'')) [] None]
             None
      \<and> files w' ''/etc/freeswitch/freeswitch.xml'' = Some (''<document>'' @ [CHR 0x0A])
      \<and> files w' ''/etc/freeswitch/freeswitch.xml_backup_2016-01-01-00-00-00'' = Some ''<old/>''"
proof -
  let ?backup = "''/etc/freeswitch/freeswitch.xml_backup_2016-01-01-00-00-00''"
  have ls: "linesep agg_platform = [CHR 0x0A]"
    by (simp add: agg_platform_def demo_platform_def)
  have ts: "tostring agg_platform True
        (Element ''document'' [(''type'', ''freeswitch/xml'')] (Some '''')
             [Element ''section'' [(''name'', ''configuration'')] (Some ('' a '' @ [CHR 0x0A] @ ''b'')) [] None]
             None) = ''<document>'' @ [CHR 0x0A]"
    by (simp add: agg_platform_def demo_platform_def)
  have h: "files demo_host (os_path_join ''/etc/freeswitch'' ''freeswitch.xml'') = Some ''<old/>''
        \<and> fromstring agg_platform ''<old/>'' = Inr (Element ''old'' [] None [] None)
        \<and> xpath_sofia_conf (Element ''old'' [] None [] None) = []
        \<and> agg_api ''xml_locate root'' = Inr ''<merged/>''
        \<and> fromstring agg_platform ''<merged/>'' = Inr merged_tree
        \<and> ?backup = os_path_join ''/etc/freeswitch'' ''freeswitch.xml''
                     @ strftime agg_platform ''_backup_%Y-%m-%d-%H-%M-%S''
                         (wallclock demo_host (Suc (Suc (ticks demo_host))))
        \<and> files demo_host ?backup = None \<and> writable demo_host ?backup
        \<and> writable demo_host (os_path_join ''/etc/freeswitch'' ''freeswitch.xml'')"
    unfolding demo_confpath
    by (simp add: demo_host_def agg_platform_def demo_platform_def agg_api_def xpath_sofia_conf_def)
  note c = normalize_text_effect [of "[]" merged_tree demo_host "''/etc/freeswitch''" "''<old/>''"
      agg_platform "Element ''old'' [] None [] None" agg_api "''<merged/>''" ?backup demo_cli,
      THEN conjunct2, THEN conjunct2, THEN conjunct2, THEN conjunct2, THEN conjunct2,
      rule_format, OF h, unfolded demo_confpath ls merged_normalized ts]
  from c obtain m w' where
    "manage_config agg_platform ''/etc/freeswitch'' demo_cli agg_api demo_host = (Inr m, w')"
    "etree m =
           Element ''document'' [(''type'', ''freeswitch/xml'')] (Some '''')
             [Element ''section'' [(''name'', ''configuration'')] (Some ('' a '' @ [CHR 0x0A] @ ''b'')) [] None]
             None"
    "files w' ''/etc/freeswitch/freeswitch.xml'' = Some (''<document>'' @ [CHR 0x0A])"
    "files w' ?backup = Some ''<old/>''"
    by (elim exE conjE) (rule that)
  then show ?thesis
    by (intro exI conjI)
qed

section \<open>Properties of sofia\_status\<close>

subsection \<open>Splitting at a separator\<close>

lemma split_from_nonempty: "split_from sep cur s \<noteq> []"
  by (induction sep cur s rule: split_from.induct) auto

lemma length_split_from: "length (split_from sep cur s) = Suc (str_count s sep)"
  by (induction sep cur s rule: split_from.induct) auto

lemma str_count_zero: "sep \<noteq> [] \<Longrightarrow> str_count s sep = 0 \<longleftrightarrow> \<not> contains sep s"
  by (induction s sep rule: str_count.induct) auto

lemma split_from_one:
  "sep \<noteq> [] \<Longrightarrow> split_from sep cur s = [a] \<Longrightarrow> a = cur @ s \<and> \<not> contains sep s"
proof (induction sep cur s rule: split_from.induct)
  case (1 sep cur)
  then show ?case by simp
next
  case (2 sep cur c cs)
  show ?case
  proof (cases "startswith (c # cs) sep")
    case True
    with "2.prems" have "split_from sep [] (drop (length sep - 1) cs) = []" by simp
    then show ?thesis using split_from_nonempty by blast
  next
    case False
    with "2.prems" have "split_from sep (cur @ [c]) cs = [a]" by simp
    from "2.IH"(2) [OF _ "2.prems"(1) this] False "2.prems"(1)
    show ?thesis by simp
  qed
qed

lemma startswith_append: "startswith (s @ t) sep \<Longrightarrow> length sep \<le> length s \<Longrightarrow> startswith s sep"
  by (simp add: startswith_def)

lemma contains_appendI: "contains sep s \<Longrightarrow> contains sep (s @ t)"
proof -
  assume "contains sep s"
  then obtain p q where "s = p @ sep @ q" using contains_iff by blast
  then have "s @ t = p @ sep @ (q @ t)" by simp
  then show ?thesis using contains_iff by blast
qed

text \<open>
  A split into two parts cuts the string at a separator, and neither part holds a
  separator.
\<close>

lemma split_from_two:
  "sep \<noteq> [] \<Longrightarrow> split_from sep cur s = [a, b] \<Longrightarrow>
   \<exists>p. a = cur @ p \<and> s = p @ sep @ b \<and> \<not> contains sep p \<and> \<not> contains sep b"
proof (induction sep cur s rule: split_from.induct)
  case (1 sep cur)
  then show ?case by simp
next
  case (2 sep cur c cs)
  show ?case
  proof (cases "startswith (c # cs) sep")
    case True
    with "2.prems" have a: "a = cur" and r: "split_from sep [] (drop (length sep - 1) cs) = [b]"
      by simp_all
    from split_from_one [OF "2.prems"(1) r] have b: "b = drop (length sep - 1) cs"
      and nb: "\<not> contains sep b" by simp_all
    from True obtain q where q: "c # cs = sep @ q" using startswith_iff by blast
    then have "drop (length sep) (c # cs) = q" by simp
    moreover have "drop (length sep) (c # cs) = drop (length sep - 1) cs"
      using "2.prems"(1) by (cases sep) simp_all
    ultimately have "c # cs = [] @ sep @ b" using q b by simp
    moreover have "\<not> contains sep []" using "2.prems"(1) by simp
    ultimately show ?thesis using a nb by (intro exI [of _ "[]"]) simp
  next
    case False
    with "2.prems" have "split_from sep (cur @ [c]) cs = [a, b]" by simp
    from "2.IH"(2) [OF _ "2.prems"(1) this] False "2.prems"(1)
    obtain p where p: "a = (cur @ [c]) @ p" "cs = p @ sep @ b" "\<not> contains sep p" "\<not> contains sep b"
      by auto
    have "\<not> startswith (c # p) sep"
    proof
      assume "startswith (c # p) sep"
      then obtain q where "c # p = sep @ q" using startswith_iff by blast
      then have "c # cs = sep @ (q @ sep @ b)" using p(2) by simp
      then have "startswith (c # cs) sep" using startswith_iff by blast
      with False show False by simp
    qed
    with p(3) have "\<not> contains sep (c # p)" by simp
    with p show ?thesis by (intro exI [of _ "c # p"]) simp
  qed
qed

lemma str_split_two:
  "sep \<noteq> [] \<Longrightarrow> str_split s sep = [a, b] \<Longrightarrow>
   s = a @ sep @ b \<and> \<not> contains sep a \<and> \<not> contains sep b"
  using split_from_two [of sep "[]" s a b] by (auto simp: str_split_def)

lemma length_str_split: "length (str_split s sep) = Suc (str_count s sep)"
  by (simp add: str_split_def length_split_from)

lemma str_split_two_iff: "(\<exists>a b. str_split s sep = [a, b]) \<longleftrightarrow> str_count s sep = 1"
proof
  assume "\<exists>a b. str_split s sep = [a, b]"
  then have "length (str_split s sep) = 2" by auto
  then show "str_count s sep = 1" by (simp add: length_str_split)
next
  assume "str_count s sep = 1"
  then have "length (str_split s sep) = 2" by (simp add: length_str_split)
  then show "\<exists>a b. str_split s sep = [a, b]"
    by (metis One_nat_def Suc_1 length_0_conv length_Suc_conv)
qed

subsection \<open>The dispatch and the loop\<close>

lemma store_gateway_two:
  "str_split name ''::'' = [p, g] \<Longrightarrow>
   store_row st (name, ''gateway'', row)
     = Inr (st\<lparr>gateways := AList.update g (AList.update ''profile'' p row) (gateways st)\<rparr>)"
  by (simp add: store_row_def)

lemma store_gateway_fails:
  assumes "length (str_split name ''::'') \<noteq> 2"
  shows "\<exists>msg. store_row st (name, ''gateway'', row) = Inl (ValueError msg)"
proof (cases "str_split name ''::''")
  case Nil
  then show ?thesis by (simp add: store_row_def)
next
  case (Cons x xs)
  note outer = this
  show ?thesis
  proof (cases xs)
    case Nil
    with outer show ?thesis by (simp add: store_row_def)
  next
    case (Cons y ys)
    with outer assms obtain z zs where "ys = z # zs" by (cases ys) auto
    with outer Cons show ?thesis by (simp add: store_row_def)
  qed
qed

lemma store_gateway_iff:
  "(\<exists>st'. store_row st (name, ''gateway'', row) = Inr st') \<longleftrightarrow> str_count name ''::'' = 1"
proof
  assume ok: "\<exists>st'. store_row st (name, ''gateway'', row) = Inr st'"
  have "length (str_split name ''::'') = 2"
  proof (rule ccontr)
    assume "length (str_split name ''::'') \<noteq> 2"
    from store_gateway_fails [OF this, of st row] ok show False by auto
  qed
  then show "str_count name ''::'' = 1" by (simp add: length_str_split)
next
  assume "str_count name ''::'' = 1"
  then obtain p g where "str_split name ''::'' = [p, g]" using str_split_two_iff by blast
  from store_gateway_two [OF this] show "\<exists>st'. store_row st (name, ''gateway'', row) = Inr st'"
    by blast
qed

lemma status_rows_fail:
  assumes "line \<in> set rows" and "status_row colnames iname line = Inr r"
    and "\<And>st. \<exists>e. store_row st r = Inl e"
  shows "\<exists>e. status_rows colnames iname rows st = Inl e"
  using assms(1)
proof (induction rows arbitrary: st)
  case Nil
  then show ?case by simp
next
  case (Cons l ls)
  show ?case
  proof (cases "status_row colnames iname l")
    case (Inl e)
    then show ?thesis by simp
  next
    case (Inr r')
    note parsed = this
    show ?thesis
    proof (cases "store_row st r'")
      case (Inl e)
      with parsed show ?thesis by simp
    next
      case (Inr st')
      have "l \<noteq> line"
      proof
        assume "l = line"
        with parsed assms(2) have "r' = r" by simp
        with Inr assms(3) [of st] show False by auto
      qed
      with Cons.prems have "line \<in> set ls" by simp
      from Cons.IH [OF this, of st'] parsed Inr show ?thesis by simp
    qed
  qed
qed

text \<open>
  Claim C10. For a gateway row the dispatch succeeds exactly when the row's name holds
  one occurrence of \<^verbatim>\<open>::\<close>, counted as \<^verbatim>\<open>str.count\<close> counts (from the left, without
  overlap; none at all means that \<^verbatim>\<open>::\<close> is not in the name). When the table has a
  gateway row whose name holds no or several occurrences, the whole call fails: it
  returns an exception and no result.
\<close>

theorem sofia_status_gateway_split:
  "((\<exists>st'. store_row st (name, ''gateway'', row) = Inr st') \<longleftrightarrow> str_count name ''::'' = 1)
   \<and> (str_count name ''::'' = 0 \<longleftrightarrow> \<not> contains ''::'' name)
   \<and> (api (mng s) ''sofia status'' = Inr out
        \<and> filter (\<lambda>l. \<not> contains ''==='' l) (splitlines out) = header # rows @ [summary]
        \<and> index_of (map lower (split_ws header)) ''name'' = Some iname
        \<and> line \<in> set rows
        \<and> status_row (remove1 ''name'' (map lower (split_ws header))) iname line
             = Inr (name, ''gateway'', row)
        \<and> str_count name ''::'' \<noteq> 1
        \<longrightarrow> (\<exists>e. fst (sofia_status s) = Inl e))"
proof (intro conjI impI)
  show "(\<exists>st'. store_row st (name, ''gateway'', row) = Inr st') \<longleftrightarrow> str_count name ''::'' = 1"
    by (rule store_gateway_iff)
  show "str_count name ''::'' = 0 \<longleftrightarrow> \<not> contains ''::'' name"
    by (rule str_count_zero) simp
next
  let ?cols = "map lower (split_ws header)"
  assume a: "api (mng s) ''sofia status'' = Inr out
        \<and> filter (\<lambda>l. \<not> contains ''==='' l) (splitlines out) = header # rows @ [summary]
        \<and> index_of ?cols ''name'' = Some iname
        \<and> line \<in> set rows
        \<and> status_row (remove1 ''name'' ?cols) iname line = Inr (name, ''gateway'', row)
        \<and> str_count name ''::'' \<noteq> 1"
  then have len: "length (str_split name ''::'') \<noteq> 2" by (simp add: length_str_split)
  have fails: "\<exists>e. store_row st' (name, ''gateway'', row) = Inl e" for st'
    using store_gateway_fails [OF len, of st' row] by blast
  from a have line: "line \<in> set rows"
    and parsed: "status_row (remove1 ''name'' ?cols) iname line = Inr (name, ''gateway'', row)"
    by simp_all
  from status_rows_fail [OF line parsed fails]
  obtain e where e: "status_rows (remove1 ''name'' ?cols) iname rows
      \<lparr>profiles = [], gateways = [], aliases = []\<rparr> = Inl e"
    by blast
  from a have "parse_status out = Inl e"
    by (simp add: parse_status_def Let_def e)
  with a have "fst (sofia_status s) = Inl e"
    by (simp add: sofia_status_def fscli_api_def)
  then show "\<exists>e. fst (sofia_status s) = Inl e" ..
qed

subsection \<open>Columns and cells\<close>

lemma index_of_Some: "index_of xs x = Some i \<Longrightarrow> i < length xs \<and> xs ! i = x"
  by (induction xs arbitrary: i) (auto split: if_splits)

lemma index_of_mem: "x \<in> set xs \<Longrightarrow> \<exists>i. index_of xs x = Some i"
  by (induction xs) auto

lemma map_of_zip_index:
  "length vs = length ks \<Longrightarrow> index_of ks k = Some j \<Longrightarrow> map_of (zip ks vs) k = Some (vs ! j)"
proof (induction ks arbitrary: vs j)
  case Nil
  then show ?case by simp
next
  case (Cons a ks)
  then obtain v vs' where vs: "vs = v # vs'" by (cases vs) auto
  show ?case
  proof (cases "a = k")
    case True
    with Cons.prems vs show ?thesis by simp
  next
    case False
    with Cons.prems obtain j' where j: "index_of ks k = Some j'" "j = Suc j'" by auto
    from Cons.IH [of vs' j'] Cons.prems vs j False show ?thesis by simp
  qed
qed

lemma map_of_zip_popped:
  "distinct ks \<Longrightarrow> length vs = length ks \<Longrightarrow> index_of ks n = Some i \<Longrightarrow> k \<noteq> n \<Longrightarrow>
   index_of ks k = Some j \<Longrightarrow>
   map_of (zip (remove1 n ks) (take i vs @ drop (Suc i) vs)) k = Some (vs ! j)"
proof (induction ks arbitrary: vs i j)
  case Nil
  then show ?case by simp
next
  case (Cons a ks)
  then obtain v vs' where vs: "vs = v # vs'" by (cases vs) auto
  show ?case
  proof (cases "a = n")
    case True
    with Cons.prems have i: "i = 0" by simp
    from True Cons.prems obtain j' where j: "index_of ks k = Some j'" "j = Suc j'" by auto
    from map_of_zip_index [of vs' ks k j'] Cons.prems(2) vs j
    have "map_of (zip ks vs') k = Some (vs' ! j')" by simp
    with True i vs j show ?thesis by simp
  next
    case False
    with Cons.prems obtain i' where i: "index_of ks n = Some i'" "i = Suc i'" by auto
    show ?thesis
    proof (cases "a = k")
      case True
      with Cons.prems have "j = 0" by simp
      with True False i vs show ?thesis by simp
    next
      case ak: False
      with Cons.prems obtain j' where j: "index_of ks k = Some j'" "j = Suc j'" by auto
      from Cons.prems have "distinct ks" "length vs' = length ks" using vs by simp_all
      from Cons.IH [OF this i(1) Cons.prems(4) j(1)]
      show ?thesis using False ak i vs j by simp
    qed
  qed
qed

lemma map_of_fold_update:
  "distinct (map fst kvs) \<Longrightarrow>
   map_of (fold (\<lambda>(k, v) d. AList.update k v d) kvs acc) x
     = (case map_of kvs x of Some v \<Rightarrow> Some v | None \<Rightarrow> map_of acc x)"
proof (induction kvs arbitrary: acc)
  case Nil
  show ?case by simp
next
  case (Cons kv kvs)
  obtain k v where kv: "kv = (k, v)" by (cases kv)
  from Cons.prems kv have d: "distinct (map fst kvs)" and n: "k \<notin> fst ` set kvs" by auto
  from n have none: "map_of kvs k = None" by (simp add: map_of_eq_None_iff)
  show ?case
    using Cons.IH [OF d, of "AList.update k v acc"] kv none
    by (auto simp: AList.update_conv' split: option.splits)
qed

lemma fold_update_lower:
  "list_all (\<lambda>k. lower k = k) ks \<Longrightarrow>
   fold (\<lambda>(k, v) d. AList.update (lower k) v d) (zip ks vs) acc
     = fold (\<lambda>(k, v) d. AList.update k v d) (zip ks vs) acc"
proof (induction ks arbitrary: vs acc)
  case Nil
  show ?case by simp
next
  case (Cons k ks)
  then show ?case by (cases vs) auto
qed

text \<open>
  A line with one cell per column gives the cell under \<^verbatim>\<open>name\<close>, the cell under
  \<^verbatim>\<open>type\<close> and a row.
\<close>

lemma status_row_cells:
  assumes cols: "cols = map lower hs" "distinct cols"
    and name: "index_of cols ''name'' = Some iname"
    and type: "''type'' \<in> set cols"
    and width: "length (str_split line [CHR 0x09]) = length cols"
  shows "\<exists>row. status_row (remove1 ''name'' cols) iname line
           = Inr (cell cols line ''name'', cell cols line ''type'', row)"
proof -
  let ?cells = "map strip (str_split line [CHR 0x09])"
  let ?rest = "take iname ?cells @ drop (Suc iname) ?cells"
  let ?ks = "remove1 ''name'' cols"
  from index_of_Some [OF name] have i: "iname < length cols" by simp
  from index_of_mem [OF type] obtain j where j: "index_of cols ''type'' = Some j" by blast
  from index_of_Some [OF j] have jl: "j < length cols" by simp
  have len: "length ?cells = length cols" using width by simp
  have low: "list_all (\<lambda>k. lower k = k) ?ks"
  proof -
    have "lower k = k" if "k \<in> set ?ks" for k
    proof -
      from that have "k \<in> set cols" by (metis notin_set_remove1)
      then obtain h where "k = lower h" using cols(1) by auto
      then show ?thesis by (simp add: lower_idem)
    qed
    then show ?thesis by (simp add: list_all_iff)
  qed
  have "distinct (map fst (zip ?ks ?rest))"
    using cols(2) by (simp add: map_fst_zip_take distinct_take)
  from map_of_fold_update [OF this, of "[]" "''type''"]
  have "map_of (fold (\<lambda>(k, v) d. AList.update k v d) (zip ?ks ?rest) []) ''type''
      = map_of (zip ?ks ?rest) ''type''"
    by (simp split: option.splits)
  also have "\<dots> = Some (?cells ! j)"
    by (rule map_of_zip_popped [OF cols(2) len name _ j]) simp
  finally have tp: "map_of (fold (\<lambda>(k, v) d. AList.update (lower k) v d) (zip ?ks ?rest) []) ''type''
      = Some (?cells ! j)"
    by (simp only: fold_update_lower [OF low])
  have c1: "cell cols line ''name'' = ?cells ! iname"
    using name i width by (simp add: cell_def)
  have c2: "cell cols line ''type'' = ?cells ! j"
    using j jl width by (simp add: cell_def)
  show ?thesis
    using i len tp c1 c2 by (simp add: status_row_def Let_def)
qed

text \<open>
  The loop, when every line gives a name and a type, the gateways' names split in two,
  and within each kind the keys are new: each dictionary gains the keys of its kind's
  lines, in their order, and a gateway's row has its profile.
\<close>

lemma status_rows_ok:
  assumes "\<forall>line \<in> set rows. \<exists>row. status_row cs i line = Inr (nm line, tp line, row)
              \<and> (tp line = ''gateway'' \<longrightarrow> str_split (nm line) ''::'' = [pp line, gp line])"
    and "distinct (map fst (profiles st) @ map nm (filter (\<lambda>l. tp l = ''profile'') rows))"
    and "distinct (map fst (gateways st) @ map gp (filter (\<lambda>l. tp l = ''gateway'') rows))"
    and "distinct (map fst (aliases st) @ map nm (filter (\<lambda>l. tp l = ''alias'') rows))"
  shows "\<exists>st'. status_rows cs i rows st = Inr st'
      \<and> map fst (profiles st') = map fst (profiles st) @ map nm (filter (\<lambda>l. tp l = ''profile'') rows)
      \<and> map fst (gateways st') = map fst (gateways st) @ map gp (filter (\<lambda>l. tp l = ''gateway'') rows)
      \<and> map fst (aliases st') = map fst (aliases st) @ map nm (filter (\<lambda>l. tp l = ''alias'') rows)
      \<and> (\<forall>l \<in> set rows. tp l = ''gateway'' \<longrightarrow>
            (\<exists>r. map_of (gateways st') (gp l) = Some r \<and> map_of r ''profile'' = Some (pp l)))
      \<and> (\<forall>k. k \<notin> set (map gp (filter (\<lambda>l. tp l = ''gateway'') rows)) \<longrightarrow>
            map_of (gateways st') k = map_of (gateways st) k)"
  using assms
proof (induction rows arbitrary: st)
  case Nil
  show ?case by simp
next
  case (Cons l ls)
  from Cons.prems(1) obtain row where
    r: "status_row cs i l = Inr (nm l, tp l, row)"
    and g: "tp l = ''gateway'' \<Longrightarrow> str_split (nm l) ''::'' = [pp l, gp l]"
    by auto
  define st1 where "st1 =
    (if tp l = ''profile'' then st\<lparr>profiles := AList.update (nm l) row (profiles st)\<rparr>
     else if tp l = ''gateway''
       then st\<lparr>gateways := AList.update (gp l) (AList.update ''profile'' (pp l) row) (gateways st)\<rparr>
     else if tp l = ''alias'' then st\<lparr>aliases := AList.update (nm l) row (aliases st)\<rparr>
     else st)"
  have store: "store_row st (nm l, tp l, row) = Inr st1"
    using g by (auto simp: store_row_def st1_def)
  have kp: "map fst (profiles st1)
      = map fst (profiles st) @ (if tp l = ''profile'' then [nm l] else [])"
    using Cons.prems(2) by (auto simp: st1_def AList.update_keys)
  have kg: "map fst (gateways st1)
      = map fst (gateways st) @ (if tp l = ''gateway'' then [gp l] else [])"
    using Cons.prems(3) by (auto simp: st1_def AList.update_keys)
  have ka: "map fst (aliases st1)
      = map fst (aliases st) @ (if tp l = ''alias'' then [nm l] else [])"
    using Cons.prems(4) by (auto simp: st1_def AList.update_keys)
  have mg: "map_of (gateways st1) k
      = (if tp l = ''gateway'' \<and> k = gp l then Some (AList.update ''profile'' (pp l) row)
         else map_of (gateways st) k)" for k
    by (auto simp: st1_def AList.update_conv')
  have p1: "\<forall>line \<in> set ls. \<exists>row. status_row cs i line = Inr (nm line, tp line, row)
              \<and> (tp line = ''gateway'' \<longrightarrow> str_split (nm line) ''::'' = [pp line, gp line])"
    using Cons.prems(1) by simp
  have p2: "distinct (map fst (profiles st1) @ map nm (filter (\<lambda>l. tp l = ''profile'') ls))"
    using Cons.prems(2) unfolding kp by auto
  have p3: "distinct (map fst (gateways st1) @ map gp (filter (\<lambda>l. tp l = ''gateway'') ls))"
    using Cons.prems(3) unfolding kg by auto
  have p4: "distinct (map fst (aliases st1) @ map nm (filter (\<lambda>l. tp l = ''alias'') ls))"
    using Cons.prems(4) unfolding ka by auto
  from Cons.IH [OF p1 p2 p3 p4] obtain st' where st':
    "status_rows cs i ls st1 = Inr st'"
    "map fst (profiles st') = map fst (profiles st1) @ map nm (filter (\<lambda>l. tp l = ''profile'') ls)"
    "map fst (gateways st') = map fst (gateways st1) @ map gp (filter (\<lambda>l. tp l = ''gateway'') ls)"
    "map fst (aliases st') = map fst (aliases st1) @ map nm (filter (\<lambda>l. tp l = ''alias'') ls)"
    "\<forall>l \<in> set ls. tp l = ''gateway'' \<longrightarrow>
        (\<exists>r. map_of (gateways st') (gp l) = Some r \<and> map_of r ''profile'' = Some (pp l))"
    "\<forall>k. k \<notin> set (map gp (filter (\<lambda>l. tp l = ''gateway'') ls)) \<longrightarrow>
        map_of (gateways st') k = map_of (gateways st1) k"
    by blast
  have run: "status_rows cs i (l # ls) st = Inr st'"
    using r store st'(1) by simp
  have c1: "map fst (profiles st') = map fst (profiles st) @ map nm (filter (\<lambda>l. tp l = ''profile'') (l # ls))"
    unfolding st'(2) kp by simp
  have c2: "map fst (gateways st') = map fst (gateways st) @ map gp (filter (\<lambda>l. tp l = ''gateway'') (l # ls))"
    unfolding st'(3) kg by simp
  have c3: "map fst (aliases st') = map fst (aliases st) @ map nm (filter (\<lambda>l. tp l = ''alias'') (l # ls))"
    unfolding st'(4) ka by simp
  have c4: "\<exists>r. map_of (gateways st') (gp l') = Some r \<and> map_of r ''profile'' = Some (pp l')"
    if "l' \<in> set (l # ls)" and gw: "tp l' = ''gateway''" for l'
  proof (cases "l' \<in> set ls")
    case True
    with st'(5) gw show ?thesis by blast
  next
    case False
    with that have eq: "l' = l" by simp
    have "gp l \<notin> set (map gp (filter (\<lambda>l. tp l = ''gateway'') ls))"
      using Cons.prems(3) gw eq by auto
    with st'(6) have "map_of (gateways st') (gp l) = map_of (gateways st1) (gp l)" by blast
    also have "\<dots> = Some (AList.update ''profile'' (pp l) row)"
      using mg [of "gp l"] gw eq by simp
    finally show ?thesis
      unfolding eq by (simp add: AList.update_conv')
  qed
  have c5: "map_of (gateways st') k = map_of (gateways st) k"
    if "k \<notin> set (map gp (filter (\<lambda>l. tp l = ''gateway'') (l # ls)))" for k
  proof -
    from that have "k \<notin> set (map gp (filter (\<lambda>l. tp l = ''gateway'') ls))" by auto
    with st'(6) have "map_of (gateways st') k = map_of (gateways st1) k" by blast
    also have "\<dots> = map_of (gateways st) k"
      using mg [of k] that by auto
    finally show ?thesis .
  qed
  from run c1 c2 c3 c4 c5 show ?case by blast
qed

lemma gateway_name_parts:
  assumes "str_count name ''::'' = 1"
  shows "str_split name ''::'' = [profile_of name, gateway_of name]
     \<and> name = profile_of name @ ''::'' @ gateway_of name
     \<and> \<not> contains ''::'' (profile_of name) \<and> \<not> contains ''::'' (gateway_of name)"
proof -
  from assms obtain a b where ab: "str_split name ''::'' = [a, b]"
    using str_split_two_iff by blast
  then have "profile_of name = a" "gateway_of name = b"
    by (simp_all add: profile_of_def gateway_of_def)
  with ab str_split_two [OF _ ab] show ?thesis by simp
qed

text \<open>
  Claim C2, as the code has it. Let the console's table, without its separator lines, be
  a header, rows and a summary line; let the header's columns be distinct and have
  \<^verbatim>\<open>name\<close> and \<^verbatim>\<open>type\<close>; let each row have one tab-separated cell per column, and
  each gateway row's name hold \<^verbatim>\<open>::\<close> once; let the profile rows' names be distinct, the
  alias rows' names be distinct, and the gateway rows' names behind \<^verbatim>\<open>::\<close> be distinct.
  Then \<open>sofia_status\<close> returns three maps: their keys are the names of the profile rows,
  the names behind \<^verbatim>\<open>::\<close> of the gateway rows and the names of the alias rows, in the
  order of the rows, so their sizes are the numbers of such rows, and a row of any other
  type is in none of them; and each gateway row's entry, under the name behind \<^verbatim>\<open>::\<close>,
  has as its \<^verbatim>\<open>profile\<close> what stands before \<^verbatim>\<open>::\<close> in the row's name.
\<close>

theorem sofia_status_maps:
  assumes api: "api (mng s) ''sofia status'' = Inr out"
    and lines: "filter (\<lambda>l. \<not> contains ''==='' l) (splitlines out) = header # rows @ [summary]"
    and cols: "cols = map lower (split_ws header)" "distinct cols"
      "''name'' \<in> set cols" "''type'' \<in> set cols"
    and width: "list_all (\<lambda>line. length (str_split line [CHR 0x09]) = length cols) rows"
    and gw: "list_all (\<lambda>line. cell cols line ''type'' = ''gateway''
                         \<longrightarrow> str_count (cell cols line ''name'') ''::'' = 1) rows"
    and dp: "distinct (map (\<lambda>l. cell cols l ''name'')
                         (filter (\<lambda>l. cell cols l ''type'' = ''profile'') rows))"
    and dg: "distinct (map (\<lambda>l. gateway_of (cell cols l ''name''))
                         (filter (\<lambda>l. cell cols l ''type'' = ''gateway'') rows))"
    and da: "distinct (map (\<lambda>l. cell cols l ''name'')
                         (filter (\<lambda>l. cell cols l ''type'' = ''alias'') rows))"
  shows "\<exists>st. fst (sofia_status s) = Inr st
      \<and> length (profiles st) = length (filter (\<lambda>l. cell cols l ''type'' = ''profile'') rows)
      \<and> length (gateways st) = length (filter (\<lambda>l. cell cols l ''type'' = ''gateway'') rows)
      \<and> length (aliases st) = length (filter (\<lambda>l. cell cols l ''type'' = ''alias'') rows)
      \<and> map fst (profiles st)
          = map (\<lambda>l. cell cols l ''name'') (filter (\<lambda>l. cell cols l ''type'' = ''profile'') rows)
      \<and> map fst (gateways st)
          = map (\<lambda>l. gateway_of (cell cols l ''name''))
              (filter (\<lambda>l. cell cols l ''type'' = ''gateway'') rows)
      \<and> map fst (aliases st)
          = map (\<lambda>l. cell cols l ''name'') (filter (\<lambda>l. cell cols l ''type'' = ''alias'') rows)
      \<and> list_all (\<lambda>line. cell cols line ''type'' = ''gateway'' \<longrightarrow>
            (\<exists>p g r. cell cols line ''name'' = p @ ''::'' @ g
               \<and> \<not> contains ''::'' p \<and> \<not> contains ''::'' g
               \<and> map_of (gateways st) g = Some r \<and> map_of r ''profile'' = Some p)) rows"
proof -
  let ?nm = "\<lambda>l. cell cols l ''name''" and ?tp = "\<lambda>l. cell cols l ''type''"
  let ?pp = "\<lambda>l. profile_of (cell cols l ''name'')" and ?gp = "\<lambda>l. gateway_of (cell cols l ''name'')"
  let ?cs = "remove1 ''name'' cols"
  let ?st0 = "\<lparr>profiles = [], gateways = [], aliases = []\<rparr>"
  from index_of_mem [OF cols(3)] obtain iname where iname: "index_of cols ''name'' = Some iname"
    by blast
  have each: "\<forall>line \<in> set rows. \<exists>row. status_row ?cs iname line = Inr (?nm line, ?tp line, row)
      \<and> (?tp line = ''gateway'' \<longrightarrow> str_split (?nm line) ''::'' = [?pp line, ?gp line])"
  proof
    fix line assume l: "line \<in> set rows"
    with width have w: "length (str_split line [CHR 0x09]) = length cols"
      by (simp add: list_all_iff)
    from status_row_cells [OF cols(1) cols(2) iname cols(4) w]
    obtain row where "status_row ?cs iname line = Inr (?nm line, ?tp line, row)" by blast
    moreover have "?tp line = ''gateway'' \<longrightarrow> str_split (?nm line) ''::'' = [?pp line, ?gp line]"
      using gw l gateway_name_parts by (simp add: list_all_iff)
    ultimately show "\<exists>row. status_row ?cs iname line = Inr (?nm line, ?tp line, row)
      \<and> (?tp line = ''gateway'' \<longrightarrow> str_split (?nm line) ''::'' = [?pp line, ?gp line])"
      by blast
  qed
  have d1: "distinct (map fst (profiles ?st0) @ map ?nm (filter (\<lambda>l. ?tp l = ''profile'') rows))"
    using dp by simp
  have d2: "distinct (map fst (gateways ?st0) @ map ?gp (filter (\<lambda>l. ?tp l = ''gateway'') rows))"
    using dg by simp
  have d3: "distinct (map fst (aliases ?st0) @ map ?nm (filter (\<lambda>l. ?tp l = ''alias'') rows))"
    using da by simp
  from status_rows_ok [of rows ?cs iname ?nm ?tp ?pp ?gp ?st0, OF each d1 d2 d3]
  obtain st where st:
    "status_rows ?cs iname rows ?st0 = Inr st"
    "map fst (profiles st) = map ?nm (filter (\<lambda>l. ?tp l = ''profile'') rows)"
    "map fst (gateways st) = map ?gp (filter (\<lambda>l. ?tp l = ''gateway'') rows)"
    "map fst (aliases st) = map ?nm (filter (\<lambda>l. ?tp l = ''alias'') rows)"
    "\<forall>l \<in> set rows. ?tp l = ''gateway'' \<longrightarrow>
        (\<exists>r. map_of (gateways st) (?gp l) = Some r \<and> map_of r ''profile'' = Some (?pp l))"
    by auto
  have "parse_status out = Inr st"
    using lines iname st(1) cols(1) by (simp add: parse_status_def Let_def butlast_append)
  then have run: "fst (sofia_status s) = Inr st"
    using api by (simp add: sofia_status_def fscli_api_def)
  have l1: "length (profiles st) = length (filter (\<lambda>l. ?tp l = ''profile'') rows)"
    using arg_cong [OF st(2), of length] by simp
  have l2: "length (gateways st) = length (filter (\<lambda>l. ?tp l = ''gateway'') rows)"
    using arg_cong [OF st(3), of length] by simp
  have l3: "length (aliases st) = length (filter (\<lambda>l. ?tp l = ''alias'') rows)"
    using arg_cong [OF st(4), of length] by simp
  have gws: "list_all (\<lambda>line. ?tp line = ''gateway'' \<longrightarrow>
            (\<exists>p g r. ?nm line = p @ ''::'' @ g
               \<and> \<not> contains ''::'' p \<and> \<not> contains ''::'' g
               \<and> map_of (gateways st) g = Some r \<and> map_of r ''profile'' = Some p)) rows"
    unfolding list_all_iff
  proof (intro ballI impI)
    fix line assume l: "line \<in> set rows" and t: "?tp line = ''gateway''"
    from gw l t have "str_count (?nm line) ''::'' = 1" by (simp add: list_all_iff)
    from gateway_name_parts [OF this]
    have parts: "?nm line = ?pp line @ ''::'' @ ?gp line"
      "\<not> contains ''::'' (?pp line)" "\<not> contains ''::'' (?gp line)" by simp_all
    from st(5) l t obtain r where
      "map_of (gateways st) (?gp line) = Some r" "map_of r ''profile'' = Some (?pp line)"
      by blast
    with parts show "\<exists>p g r. ?nm line = p @ ''::'' @ g
               \<and> \<not> contains ''::'' p \<and> \<not> contains ''::'' g
               \<and> map_of (gateways st) g = Some r \<and> map_of r ''profile'' = Some p"
      by blast
  qed
  from run l1 l2 l3 st(2) st(3) st(4) gws show ?thesis by blast
qed

lemma status_table_splitlines:
  "splitlines status_table
     = [table_header, ''====='', row_profile, row_gateway, row_alias, row_other, ''====='',
        ''1 profile 1 alias'']"
  by (simp add: status_table_def table_header_def row_profile_def row_gateway_def row_alias_def
      row_other_def splitlines_def is_linebreak_def)

lemma status_table_no_rule:
  "\<not> contains ''==='' table_header" "\<not> contains ''==='' row_profile"
  "\<not> contains ''==='' row_gateway" "\<not> contains ''==='' row_alias"
  "\<not> contains ''==='' row_other"
  by (simp_all add: table_header_def row_profile_def row_gateway_def row_alias_def
      row_other_def startswith_def)

lemma status_table_lines:
  "filter (\<lambda>l. \<not> contains ''==='' l) (splitlines status_table)
     = table_header # [row_profile, row_gateway, row_alias, row_other] @ [''1 profile 1 alias'']"
  by (simp add: status_table_splitlines status_table_no_rule startswith_def)

lemma table_header_cols:
  "[''name'', ''type'', ''data'', ''state''] = map lower (split_ws table_header)"
  by (simp add: table_header_def split_ws_def isspace_def lower_def lower_char_def)

lemma table_rows_split:
  "str_split row_profile [CHR 0x09] = ['' external'', ''profile'', ''sip:a@x:5080'', ''RUNNING (0)'']"
  "str_split row_gateway [CHR 0x09] = [''external::example.com'', ''gateway'', ''sip:joe@example.com'', ''NOREG'']"
  "str_split row_alias [CHR 0x09] = [''ext'', ''alias'', ''external'', ''ALIASED'']"
  "str_split row_other [CHR 0x09] = [''odd'', ''widget'', ''x'', ''y'']"
  by (simp_all add: row_profile_def row_gateway_def row_alias_def row_other_def str_split_def
      startswith_def)

lemma table_cells:
  "cell [''name'', ''type'', ''data'', ''state''] row_profile ''name'' = ''external''"
  "cell [''name'', ''type'', ''data'', ''state''] row_profile ''type'' = ''profile''"
  "cell [''name'', ''type'', ''data'', ''state''] row_gateway ''name'' = ''external::example.com''"
  "cell [''name'', ''type'', ''data'', ''state''] row_gateway ''type'' = ''gateway''"
  "cell [''name'', ''type'', ''data'', ''state''] row_alias ''name'' = ''ext''"
  "cell [''name'', ''type'', ''data'', ''state''] row_alias ''type'' = ''alias''"
  "cell [''name'', ''type'', ''data'', ''state''] row_other ''name'' = ''odd''"
  "cell [''name'', ''type'', ''data'', ''state''] row_other ''type'' = ''widget''"
  by (simp_all add: cell_def table_rows_split strip_def isspace_def)

lemma gateway_example_parts:
  "str_count ''external::example.com'' ''::'' = 1"
  "gateway_of ''external::example.com'' = ''example.com''"
  by (simp_all add: gateway_of_def str_split_def startswith_def)

theorem sofia_status_maps_witness:
  "\<exists>st. fst (sofia_status table_demo) = Inr st
      \<and> length (profiles st) = 1 \<and> length (gateways st) = 1 \<and> length (aliases st) = 1
      \<and> map fst (profiles st) = [''external'']
      \<and> map fst (gateways st) = [''example.com'']
      \<and> map fst (aliases st) = [''ext'']"
proof -
  let ?cols = "[''name'', ''type'', ''data'', ''state'']"
  let ?rows = "[row_profile, row_gateway, row_alias, row_other]"
  have api: "api (mng table_demo) ''sofia status'' = Inr status_table"
    by (simp add: table_demo_def)
  have c2: "distinct ?cols" and c3: "''name'' \<in> set ?cols" and c4: "''type'' \<in> set ?cols"
    by simp_all
  have width: "list_all (\<lambda>line. length (str_split line [CHR 0x09]) = length ?cols) ?rows"
    by (simp add: table_rows_split)
  have gw: "list_all (\<lambda>line. cell ?cols line ''type'' = ''gateway''
                         \<longrightarrow> str_count (cell ?cols line ''name'') ''::'' = 1) ?rows"
    by (simp add: table_cells startswith_def)
  have fp: "filter (\<lambda>l. cell ?cols l ''type'' = ''profile'') ?rows = [row_profile]"
    and fg: "filter (\<lambda>l. cell ?cols l ''type'' = ''gateway'') ?rows = [row_gateway]"
    and fa: "filter (\<lambda>l. cell ?cols l ''type'' = ''alias'') ?rows = [row_alias]"
    by (simp_all add: table_cells)
  have dp: "distinct (map (\<lambda>l. cell ?cols l ''name'') (filter (\<lambda>l. cell ?cols l ''type'' = ''profile'') ?rows))"
    and dg: "distinct (map (\<lambda>l. gateway_of (cell ?cols l ''name'')) (filter (\<lambda>l. cell ?cols l ''type'' = ''gateway'') ?rows))"
    and da: "distinct (map (\<lambda>l. cell ?cols l ''name'') (filter (\<lambda>l. cell ?cols l ''type'' = ''alias'') ?rows))"
    unfolding fp fg fa by simp_all
  have np: "map (\<lambda>l. cell ?cols l ''name'') [row_profile] = [''external'']"
    and ng: "map (\<lambda>l. gateway_of (cell ?cols l ''name'')) [row_gateway] = [''example.com'']"
    and na: "map (\<lambda>l. cell ?cols l ''name'') [row_alias] = [''ext'']"
    by (simp_all add: table_cells gateway_of_def str_split_def startswith_def)
  have l1: "length [row_profile] = 1" and l2: "length [row_gateway] = 1" and l3: "length [row_alias] = 1"
    by simp_all
  note c = sofia_status_maps [OF api status_table_lines table_header_cols c2 c3 c4 width gw dp dg da,
      unfolded fp fg fa np ng na l1 l2 l3]
  from c obtain st where
    "fst (sofia_status table_demo) = Inr st"
    "length (profiles st) = 1" "length (gateways st) = 1" "length (aliases st) = 1"
    "map fst (profiles st) = [''external'']"
    "map fst (gateways st) = [''example.com'']"
    "map fst (aliases st) = [''ext'']"
    by (elim exE conjE) (rule that)
  then show ?thesis
    by (intro exI conjI)
qed

lemma more_rows_no_rule:
  "\<not> contains ''==='' row_gw1" "\<not> contains ''==='' row_gw2" "\<not> contains ''==='' row_lonely"
  by (simp_all add: row_gw1_def row_gw2_def row_lonely_def startswith_def)

lemma collide_table_lines:
  "filter (\<lambda>l. \<not> contains ''==='' l) (splitlines collide_table)
     = table_header # [row_gw1, row_gw2] @ [''0 profiles 0 aliases'']"
proof -
  have "splitlines collide_table
      = [table_header, ''====='', row_gw1, row_gw2, ''====='', ''0 profiles 0 aliases'']"
    by (simp add: collide_table_def table_header_def row_gw1_def row_gw2_def splitlines_def
        is_linebreak_def)
  then show ?thesis
    by (simp add: status_table_no_rule more_rows_no_rule startswith_def)
qed

lemma lonely_table_lines:
  "filter (\<lambda>l. \<not> contains ''==='' l) (splitlines lonely_table)
     = table_header # [row_profile, row_lonely] @ [''1 profile 0 aliases'']"
proof -
  have "splitlines lonely_table
      = [table_header, ''====='', row_profile, row_lonely, ''====='', ''1 profile 0 aliases'']"
    by (simp add: lonely_table_def table_header_def row_profile_def row_lonely_def splitlines_def
        is_linebreak_def)
  then show ?thesis
    by (simp add: status_table_no_rule more_rows_no_rule startswith_def)
qed

lemma more_rows_split:
  "str_split row_gw1 [CHR 0x09] = [''p1::gw'', ''gateway'', ''sip:a@x'', ''NOREG'']"
  "str_split row_gw2 [CHR 0x09] = [''p2::gw'', ''gateway'', ''sip:b@y'', ''NOREG'']"
  "str_split row_lonely [CHR 0x09] = [''lonely'', ''gateway'', ''sip:x'', ''NOREG'']"
  by (simp_all add: row_gw1_def row_gw2_def row_lonely_def str_split_def startswith_def)

lemma lower_colnames:
  "lower ''type'' = ''type''" "lower ''data'' = ''data''" "lower ''state'' = ''state''"
  by (simp_all add: lower_def lower_char_def)

lemma more_status_rows:
  "status_row [''type'', ''data'', ''state''] 0 row_gw1
     = Inr (''p1::gw'', ''gateway'', [(''data'', ''sip:a@x''), (''state'', ''NOREG'')])"
  "status_row [''type'', ''data'', ''state''] 0 row_gw2
     = Inr (''p2::gw'', ''gateway'', [(''data'', ''sip:b@y''), (''state'', ''NOREG'')])"
  "status_row [''type'', ''data'', ''state''] 0 row_lonely
     = Inr (''lonely'', ''gateway'', [(''data'', ''sip:x''), (''state'', ''NOREG'')])"
  by (simp_all add: status_row_def Let_def more_rows_split strip_def isspace_def lower_colnames)

lemma table_header_index:
  "index_of (map lower (split_ws table_header)) ''name'' = Some 0"
  "remove1 ''name'' (map lower (split_ws table_header)) = [''type'', ''data'', ''state'']"
  unfolding table_header_cols [symmetric] by simp_all

lemma collide_split:
  "str_split ''p1::gw'' ''::'' = [''p1'', ''gw'']" "str_split ''p2::gw'' ''::'' = [''p2'', ''gw'']"
  by (simp_all add: str_split_def startswith_def)

theorem sofia_status_gateways_collide:
  "fst (sofia_status collide_demo)
     = Inr \<lparr>profiles = [],
            gateways = [(''gw'', [(''data'', ''sip:b@y''), (''state'', ''NOREG''), (''profile'', ''p2'')])],
            aliases = []\<rparr>
   \<and> filter (\<lambda>l. \<not> contains ''==='' l) (splitlines collide_table)
       = table_header # [row_gw1, row_gw2] @ [''0 profiles 0 aliases'']
   \<and> map (\<lambda>l. cell [''name'', ''type'', ''data'', ''state''] l ''type'') [row_gw1, row_gw2]
       = [''gateway'', ''gateway'']
   \<and> map (\<lambda>l. cell [''name'', ''type'', ''data'', ''state''] l ''name'') [row_gw1, row_gw2]
       = [''p1::gw'', ''p2::gw'']
   \<and> distinct [''p1::gw'', ''p2::gw'']
   \<and> str_count ''p1::gw'' ''::'' = 1 \<and> str_count ''p2::gw'' ''::'' = 1"
proof -
  have "parse_status collide_table
      = Inr \<lparr>profiles = [],
            gateways = [(''gw'', [(''data'', ''sip:b@y''), (''state'', ''NOREG''), (''profile'', ''p2'')])],
            aliases = []\<rparr>"
    unfolding parse_status_def Let_def collide_table_lines
    by (simp add: table_header_index more_status_rows store_row_def collide_split)
  then have run: "fst (sofia_status collide_demo)
     = Inr \<lparr>profiles = [],
            gateways = [(''gw'', [(''data'', ''sip:b@y''), (''state'', ''NOREG''), (''profile'', ''p2'')])],
            aliases = []\<rparr>"
    by (simp add: sofia_status_def fscli_api_def collide_demo_def)
  have cells: "map (\<lambda>l. cell [''name'', ''type'', ''data'', ''state''] l ''type'') [row_gw1, row_gw2]
       = [''gateway'', ''gateway'']"
    "map (\<lambda>l. cell [''name'', ''type'', ''data'', ''state''] l ''name'') [row_gw1, row_gw2]
       = [''p1::gw'', ''p2::gw'']"
    by (simp_all add: cell_def more_rows_split strip_def isspace_def)
  have rest: "distinct [''p1::gw'', ''p2::gw'']"
    "str_count ''p1::gw'' ''::'' = 1" "str_count ''p2::gw'' ''::'' = 1"
    by (simp_all add: startswith_def)
  show ?thesis
    by (intro conjI) (fact run collide_table_lines cells rest)+
qed

theorem sofia_status_gateway_split_witness:
  "(\<exists>e. fst (sofia_status lonely_demo) = Inl e)
   \<and> (\<exists>st'. store_row \<lparr>profiles = [], gateways = [], aliases = []\<rparr>
              (''external::example.com'', ''gateway'', []) = Inr st')"
proof -
  have h: "api (mng lonely_demo) ''sofia status'' = Inr lonely_table
        \<and> filter (\<lambda>l. \<not> contains ''==='' l) (splitlines lonely_table)
            = table_header # [row_profile, row_lonely] @ [''1 profile 0 aliases'']
        \<and> index_of (map lower (split_ws table_header)) ''name'' = Some 0
        \<and> row_lonely \<in> set [row_profile, row_lonely]
        \<and> status_row (remove1 ''name'' (map lower (split_ws table_header))) 0 row_lonely
             = Inr (''lonely'', ''gateway'', [(''data'', ''sip:x''), (''state'', ''NOREG'')])
        \<and> str_count ''lonely'' ''::'' \<noteq> 1"
    unfolding table_header_index lonely_table_lines more_status_rows
    by (simp add: lonely_demo_def startswith_def)
  note fails = sofia_status_gateway_split [THEN conjunct2, THEN conjunct2, rule_format, OF h]
  have one: "str_count ''external::example.com'' ''::'' = 1"
    by (simp add: startswith_def)
  note stores = sofia_status_gateway_split [THEN conjunct1, THEN iffD2, OF one]
  show ?thesis
    by (rule conjI) (rule fails, rule stores)
qed

end
